theory Spec2Isabelle
  imports Main "HOL-Library.Sublist"
begin

section \<open>Python strings\<close>

text \<open>
  A Python \<open>str\<close> is a sequence of code points. The model uses \<open>string\<close>, so it covers the
  code points 0 to 255 (Latin-1); on that range the regular-expression class \<open>\d\<close> is
  exactly the ten ASCII digits, and \<open>str.lower\<close> and \<open>str.strip\<close> act character by
  character as defined below.
\<close>

definition backslash :: char where
  "backslash = CHR 0x5C"

definition quote :: char where
  "quote = CHR 0x27"

definition isspace :: "char \<Rightarrow> bool" where
  \<comment> \<open>the code points below 256 that \<open>str.strip()\<close> removes\<close>
  "isspace c =
     (let n = (of_char c :: nat)
      in (9 \<le> n \<and> n \<le> 13) \<or> (28 \<le> n \<and> n \<le> 32) \<or> n = 133 \<or> n = 160)"

definition strip :: "string \<Rightarrow> string" where
  "strip s = rev (dropWhile isspace (rev (dropWhile isspace s)))"

definition lower_char :: "char \<Rightarrow> char" where
  "lower_char c =
     (let n = (of_char c :: nat)
      in if (65 \<le> n \<and> n \<le> 90) \<or> (192 \<le> n \<and> n \<le> 222 \<and> n \<noteq> 215)
         then char_of (n + 32) else c)"

definition lower :: "string \<Rightarrow> string" where
  "lower s = map lower_char s"

fun contains :: "string \<Rightarrow> string \<Rightarrow> bool" where
  \<comment> \<open>\<open>contains k s\<close> is Python's \<open>k in s\<close> on strings\<close>
  "contains k [] = (k = [])"
| "contains k (c # cs) = (prefix k (c # cs) \<or> contains k cs)"

fun digits :: "nat \<Rightarrow> string" where
  "digits n =
     (if n < 10 then [char_of (48 + n)]
      else digits (n div 10) @ [char_of (48 + n mod 10)])"

declare digits.simps [simp del]

definition str_int :: "int \<Rightarrow> string" where
  \<comment> \<open>\<open>str(i)\<close> of a Python int, as an f-string renders it\<close>
  "str_int i = (if i < 0 then CHR ''-'' # digits (nat (- i)) else digits (nat i))"

section \<open>The regular expression of \<open>validate_ip\<close>\<close>

text \<open>
  The fragment of Python's \<open>re\<close> that the pattern uses. A matcher state is the position in
  the subject and the text left from there; a pattern maps a state to the states in which
  a match of it can end. \<open>Bol\<close> is \<open>^\<close> (no MULTILINE flag: the start of the subject
  only); \<open>Eol\<close> is \<open>$\<close>, which matches at the end of the subject and also just before a
  newline that is the subject's last character.
\<close>

datatype rx =
    Bol
  | Eol
  | Digit
  | Lit char
  | Seq rx rx
  | Rep nat nat rx

type_synonym mstate = "nat \<times> string"

definition is_digit :: "char \<Rightarrow> bool" where
  "is_digit c = (c \<in> set ''0123456789'')"

fun iter :: "nat \<Rightarrow> (mstate \<Rightarrow> mstate list) \<Rightarrow> mstate \<Rightarrow> mstate list" where
  "iter 0 f st = [st]"
| "iter (Suc k) f st = concat (map (iter k f) (f st))"

primrec ends :: "rx \<Rightarrow> mstate \<Rightarrow> mstate list" where
  "ends Bol = (\<lambda>st. if fst st = 0 then [st] else [])"
| "ends Eol = (\<lambda>st. if snd st = [] \<or> snd st = [CHR ''\<newline>''] then [st] else [])"
| "ends Digit =
     (\<lambda>st. case snd st of [] \<Rightarrow> []
            | c # cs \<Rightarrow> if is_digit c then [(Suc (fst st), cs)] else [])"
| "ends (Lit a) =
     (\<lambda>st. case snd st of [] \<Rightarrow> []
            | c # cs \<Rightarrow> if c = a then [(Suc (fst st), cs)] else [])"
| "ends (Seq a b) = (\<lambda>st. concat (map (ends b) (ends a st)))"
| "ends (Rep m n a) =
     (\<lambda>st. concat (map (\<lambda>k. iter k (ends a) st) (rev [m..<Suc n])))"

definition re_match :: "rx \<Rightarrow> string \<Rightarrow> bool" where
  \<comment> \<open>\<open>bool(pattern.match(s))\<close>: some match starts at position 0\<close>
  "re_match p s = (ends p (0, s) \<noteq> [])"

definition pattern :: rx where
  \<comment> \<open>\<open>^\d{1,3}(\.\d{1,3}){3}$\<close>\<close>
  "pattern =
     Seq Bol (Seq (Rep 1 3 Digit)
       (Seq (Rep 3 3 (Seq (Lit CHR ''.'') (Rep 1 3 Digit))) Eol))"

definition validate_ip :: "string \<Rightarrow> bool" where
  "validate_ip ip = re_match pattern ip"

text \<open>
  The specification's wording of the same test: exactly four groups of one to three digits,
  separated by dots.
\<close>

fun split_dot :: "string \<Rightarrow> string list" where
  \<comment> \<open>\<open>s.split(\".\")\<close>\<close>
  "split_dot [] = [[]]"
| "split_dot (c # cs) =
     (if c = CHR ''.'' then [] # split_dot cs
      else (case split_dot cs of g # gs \<Rightarrow> (c # g) # gs | [] \<Rightarrow> [[c]]))"

definition digit_group :: "string \<Rightarrow> bool" where
  "digit_group g = (1 \<le> length g \<and> length g \<le> 3 \<and> list_all is_digit g)"

definition dotted_quad :: "string \<Rightarrow> bool" where
  "dotted_quad s = (length (split_dot s) = 4 \<and> list_all digit_group (split_dot s))"

section \<open>The environment of one run\<close>

text \<open>
  The script talks to the network, the clock and three files. One run is modelled
  against an environment that fixes what the outside world answers, and a world state
  that the functions pass along and update.

  A network call ends in a response, in a transport-level exception (a subclass of
  \<open>Exception\<close>, with its text), or in a keyboard interrupt. An interrupt is delivered
  at a blocking call: the GET, the POST or the sleep between attempts. Files hold text,
  and a file's size is the length of its UTF-8 encoding. The first part models the runs
  in which every file operation succeeds; the part after it adds the failures of file
  operations.

  \<open>TOKEN\<close> and \<open>API_URL\<close> are filled into the script when it is deployed; they are
  fields of the environment. What \<open>response.json()\<close> does is a field of the response
  beside its text, as the library decides it: the script only calls it.
\<close>

datatype pyval =
    PNone
  | PStr string
  | POther bool string
  \<comment> \<open>any other JSON value (number, boolean, array, object): its truth value and its
     \<open>str()\<close>\<close>

datatype json_outcome =
    JsonDecodeError
  | JsonNonObject
  | JsonObject "string \<rightharpoonup> pyval"
  \<comment> \<open>what \<open>response.json()\<close> does: raises, returns a value that is no dict, or
     returns a dict\<close>

record response =
  status_code :: int
  resp_text :: string
  resp_json :: json_outcome

datatype net_outcome =
    Response response
  | TransportError string
  | Interrupted

datatype exn =
    PyException string
  | KeyboardInterrupt
  | SystemExit int

datatype event =
    EvGet
  | EvSleep nat
  | EvPost string string string
  \<comment> \<open>\<open>EvPost url token ip\<close>: the POST to \<open>url\<close> with the payload's two fields\<close>

record env =
  TOKEN :: string
  API_URL :: string
  now :: "nat \<Rightarrow> string"
  get_reply :: "nat \<Rightarrow> net_outcome"
  sleep_interrupted :: "nat \<Rightarrow> bool"
  post_reply :: net_outcome

text \<open>
  \<open>now e k\<close> is \<open>datetime.now().strftime(...)\<close> at the \<open>k\<close>-th reading of the clock;
  \<open>get_reply e k\<close> answers the GET of attempt \<open>k\<close> (counted from 0);
  \<open>sleep_interrupted e k\<close> says whether the sleep after attempt \<open>k\<close> is interrupted.
\<close>

record world =
  log_file :: "string option"
  log_old :: "string option"
  last_ip_file :: "string option"
  stdout :: "string list"
  stderr :: "string list"
  clock :: nat
  trace :: "event list"

text \<open>
  \<open>log_file\<close>, \<open>log_old\<close> and \<open>last_ip_file\<close> are the contents of \<open>LOG_FILE\<close>,
  \<open>LOG_FILE + ".old"\<close> and \<open>LAST_IP_FILE\<close> (\<open>None\<close>: no such file); \<open>stdout\<close> and
  \<open>stderr\<close> collect the printed lines; \<open>trace\<close> records the network calls and sleeps in
  the order they happen.
\<close>

definition MAX_LOG_SIZE :: nat where
  "MAX_LOG_SIZE = 1048576"

definition utf8_len :: "char \<Rightarrow> nat" where
  "utf8_len c = (if (of_char c :: nat) < 128 then 1 else 2)"

definition getsize :: "string \<Rightarrow> nat" where
  "getsize s = sum_list (map utf8_len s)"

section \<open>The script when every file operation succeeds\<close>

definition log_entry :: "string \<Rightarrow> string \<Rightarrow> string \<Rightarrow> string" where
  \<comment> \<open>the f-string of \<open>log_message\<close>; the source ends it with \<open>\\n\<close>, a backslash and an
     \<open>n\<close>\<close>
  "log_entry timestamp level message =
     ''['' @ timestamp @ ''] ['' @ level @ ''] '' @ message @ [backslash, CHR ''n'']"

definition append_file :: "string option \<Rightarrow> string \<Rightarrow> string option" where
  \<comment> \<open>\<open>open(path, "a")\<close> and \<open>write\<close>: creates the file when there is none\<close>
  "append_file f s = (case f of None \<Rightarrow> Some s | Some c \<Rightarrow> Some (c @ s))"

definition log_message :: "env \<Rightarrow> string \<Rightarrow> string \<Rightarrow> world \<Rightarrow> world" where
  "log_message e level message w =
     (let timestamp = now e (clock w);
          entry = log_entry timestamp level message;
          w1 = w\<lparr>clock := Suc (clock w), log_file := append_file (log_file w) entry\<rparr>
      in if level = ''ERROR''
         then w1\<lparr>stderr := stderr w1 @ [strip entry]\<rparr>
         else w1\<lparr>stdout := stdout w1 @ [strip entry]\<rparr>)"

definition rotate_log :: "env \<Rightarrow> world \<Rightarrow> world" where
  "rotate_log e w =
     (case log_file w of
        None \<Rightarrow> w
      | Some c \<Rightarrow>
          if getsize c > MAX_LOG_SIZE
          then log_message e ''INFO'' ''Log file rotated due to size limit''
                 (w\<lparr>log_old := Some c, log_file := None\<rparr>)
          else w)"

definition attempt_label :: "nat \<Rightarrow> string" where
  \<comment> \<open>\<open>f"Attempt {attempt+1}: "\<close>\<close>
  "attempt_label attempt = ''Attempt '' @ str_int (int attempt + 1) @ '': ''"

definition try_get :: "env \<Rightarrow> nat \<Rightarrow> world \<Rightarrow> (exn + string option) \<times> world" where
  \<comment> \<open>the \<open>try\<close> statement of one iteration: \<open>Inr (Some ip)\<close> is \<open>return ip\<close>,
     \<open>Inr None\<close> is falling through to the code after the \<open>try\<close>; \<open>except Exception\<close>
     does not catch \<open>KeyboardInterrupt\<close>\<close>
  "try_get e attempt w =
     (let w1 = w\<lparr>trace := trace w @ [EvGet]\<rparr>
      in case get_reply e attempt of
           Interrupted \<Rightarrow> (Inl KeyboardInterrupt, w1)
         | TransportError d \<Rightarrow>
             (Inr None,
              log_message e ''WARN''
                (attempt_label attempt @ ''Failed to retrieve IP: '' @ d) w1)
         | Response r \<Rightarrow>
             if status_code r = 200
             then (let ip = strip (resp_text r)
                   in if validate_ip ip
                      then (Inr (Some ip),
                            log_message e ''INFO''
                              (''Successfully retrieved IP address: '' @ ip) w1)
                      else (Inr None,
                            log_message e ''WARN''
                              (attempt_label attempt @ ''Invalid IP format: '' @ [quote]
                                 @ ip @ [quote]) w1))
             else (Inr None,
                   log_message e ''WARN''
                     (attempt_label attempt @ ''HTTP error '' @ str_int (status_code r))
                     w1))"

definition sleep :: "env \<Rightarrow> nat \<Rightarrow> nat \<Rightarrow> world \<Rightarrow> (exn + unit) \<times> world" where
  \<comment> \<open>\<open>time.sleep(secs)\<close> after attempt \<open>attempt\<close>\<close>
  "sleep e attempt secs w =
     (let w1 = w\<lparr>trace := trace w @ [EvSleep secs]\<rparr>
      in if sleep_interrupted e attempt then (Inl KeyboardInterrupt, w1) else (Inr (), w1))"

fun get_public_ip_loop ::
  "env \<Rightarrow> nat list \<Rightarrow> world \<Rightarrow> (exn + string option) \<times> world" where
  "get_public_ip_loop e [] w = (Inr None, w)"
| "get_public_ip_loop e (attempt # rest) w =
     (case try_get e attempt w of
        (Inl x, w1) \<Rightarrow> (Inl x, w1)
      | (Inr (Some ip), w1) \<Rightarrow> (Inr (Some ip), w1)
      | (Inr None, w1) \<Rightarrow>
          if attempt < 2
          then (case sleep e attempt 5 w1 of
                  (Inl x, w2) \<Rightarrow> (Inl x, w2)
                | (Inr u, w2) \<Rightarrow> get_public_ip_loop e rest w2)
          else get_public_ip_loop e rest w1)"

definition get_public_ip :: "env \<Rightarrow> world \<Rightarrow> (exn + string option) \<times> world" where
  \<comment> \<open>\<open>for attempt in range(3)\<close>\<close>
  "get_public_ip e w = get_public_ip_loop e [0..<3] w"

fun truthy :: "pyval \<Rightarrow> bool" where
  "truthy PNone = False"
| "truthy (PStr s) = (s \<noteq> [])"
| "truthy (POther b s) = b"

fun py_str :: "pyval \<Rightarrow> string" where
  "py_str PNone = ''None''"
| "py_str (PStr s) = s"
| "py_str (POther b s) = s"

definition py_or :: "pyval \<Rightarrow> pyval \<Rightarrow> pyval" where
  "py_or a b = (if truthy a then a else b)"

definition dict_get :: "(string \<rightharpoonup> pyval) \<Rightarrow> string \<Rightarrow> pyval" where
  "dict_get d k = (case d k of None \<Rightarrow> PNone | Some v \<Rightarrow> v)"

definition response_ok :: "response \<Rightarrow> bool" where
  \<comment> \<open>\<open>response.ok\<close> of requests: \<open>raise_for_status()\<close> raises for 400 to 599\<close>
  "response_ok r = (\<not> (400 \<le> status_code r \<and> status_code r < 600))"

definition success_body :: "string \<Rightarrow> bool" where
  \<comment> \<open>\<open>any(k in response.text.lower() for k in ["success", "updated", "ok"])\<close>\<close>
  "success_body body =
     list_ex (\<lambda>k. contains k (lower body)) [''success'', ''updated'', ''ok'']"

definition error_msg :: "response \<Rightarrow> pyval" where
  \<comment> \<open>the inner \<open>try\<close> of \<open>update_ddns\<close>: a decode error, and the \<open>AttributeError\<close> of
     \<open>.get\<close> on a value that is no dict, end in the \<open>except\<close> branch\<close>
  "error_msg r =
     (case resp_json r of
        JsonObject error_data \<Rightarrow>
          py_or (py_or (dict_get error_data ''error'') (dict_get error_data ''message''))
            (PStr (resp_text r))
      | JsonNonObject \<Rightarrow> PStr (resp_text r)
      | JsonDecodeError \<Rightarrow> PStr (resp_text r))"

definition update_ddns :: "env \<Rightarrow> string \<Rightarrow> world \<Rightarrow> (exn + bool) \<times> world" where
  "update_ddns e ip w =
     (let w1 = w\<lparr>trace := trace w @ [EvPost (API_URL e) (TOKEN e) ip]\<rparr>
      in case post_reply e of
           Interrupted \<Rightarrow> (Inl KeyboardInterrupt, w1)
         | TransportError d \<Rightarrow>
             (Inr False, log_message e ''ERROR'' (''API request exception: '' @ d) w1)
         | Response r \<Rightarrow>
             (let w2 = log_message e ''DEBUG'' (''API Response: '' @ resp_text r) w1
              in if response_ok r \<and> success_body (resp_text r)
                 then (let w3 = log_message e ''INFO'' ''DNS record updated successfully'' w2
                       in (Inr True, w3\<lparr>last_ip_file := Some ip\<rparr>))
                 else (Inr False,
                       log_message e ''ERROR''
                         (''API request failed: '' @ py_str (error_msg r)) w2)))"

definition ip_unchanged :: "string \<Rightarrow> world \<Rightarrow> bool" where
  \<comment> \<open>\<open>os.path.isfile(LAST_IP_FILE)\<close> and \<open>ip == f.read().strip()\<close>\<close>
  "ip_unchanged ip w =
     (case last_ip_file w of None \<Rightarrow> False | Some c \<Rightarrow> ip = strip c)"

definition update_and_exit :: "env \<Rightarrow> string \<Rightarrow> world \<Rightarrow> (exn + unit) \<times> world" where
  \<comment> \<open>the last \<open>if\<close> of \<open>main\<close>\<close>
  "update_and_exit e ip w =
     (case update_ddns e ip w of
        (Inl x, w1) \<Rightarrow> (Inl x, w1)
      | (Inr ok, w1) \<Rightarrow>
          if ok
          then (Inl (SystemExit 0),
                log_message e ''INFO'' (''IP successfully updated to '' @ ip) w1)
          else (Inl (SystemExit 1), log_message e ''ERROR'' ''Failed to update DDNS'' w1))"

definition compare_and_update ::
  "env \<Rightarrow> string option \<Rightarrow> world \<Rightarrow> (exn + unit) \<times> world" where
  \<comment> \<open>\<open>main\<close> from \<open>if not ip\<close> on; \<open>not ip\<close> holds for \<open>None\<close> and for the empty string\<close>
  "compare_and_update e ip_opt w =
     (case ip_opt of
        None \<Rightarrow>
          (Inl (SystemExit 1),
           log_message e ''ERROR'' ''Failed to get valid public IP after 3 attempts'' w)
      | Some ip \<Rightarrow>
          if ip = []
          then (Inl (SystemExit 1),
                log_message e ''ERROR'' ''Failed to get valid public IP after 3 attempts'' w)
          else if ip_unchanged ip w
          then (Inl (SystemExit 0),
                log_message e ''INFO''
                  (''IP address unchanged ('' @ ip @ ''), skipping update'') w)
          else update_and_exit e ip w)"

definition main :: "env \<Rightarrow> world \<Rightarrow> (exn + unit) \<times> world" where
  \<comment> \<open>\<open>os.makedirs\<close> of the log file's directory, the home directory, changes nothing\<close>
  "main e w =
     (let w1 = log_message e ''INFO'' ''Starting VolaryDDNS update process'' w;
          w2 = rotate_log e w1
      in case get_public_ip e w2 of
           (Inl x, w3) \<Rightarrow> (Inl x, w3)
         | (Inr ip_opt, w3) \<Rightarrow> compare_and_update e ip_opt w3)"

datatype process_end =
    Exit int
  | Traceback exn
  \<comment> \<open>\<open>Traceback\<close>: an exception left the script and the interpreter reported it\<close>

definition script :: "env \<Rightarrow> world \<Rightarrow> process_end \<times> world" where
  \<comment> \<open>the \<open>__main__\<close> guard: \<open>SystemExit\<close> passes through \<open>except KeyboardInterrupt\<close>\<close>
  "script e w =
     (case main e w of
        (Inl KeyboardInterrupt, w1) \<Rightarrow>
          (Exit 130, log_message e ''ERROR'' ''Script interrupted'' w1)
      | (Inl (SystemExit n), w1) \<Rightarrow> (Exit n, w1)
      | (Inl (PyException d), w1) \<Rightarrow> (Traceback (PyException d), w1)
      | (Inr u, w1) \<Rightarrow> (Exit 0, w1))"

section \<open>The script with file operations that can fail\<close>

text \<open>
  The functions above are the script on the runs in which every file operation succeeds.
  On a real machine opening, reading, writing and renaming a file, asking for its size and
  creating a directory can raise \<open>OSError\<close>, a subclass of \<open>Exception\<close>. The functions
  below are the same statements of the source with these failures: a fault plan says which
  file operations fail, and with which text. An exception raised inside a \<open>try\<close> reaches
  its \<open>except Exception\<close> clause; one raised anywhere else goes on to the caller.
  \<open>log_message\<close> is called both inside and outside the \<open>try\<close> blocks, and it is called
  in the \<open>except\<close> clauses themselves.
\<close>

datatype write_fault =
    WriteOk
  | OpenFails string
  | WriteFails string
  \<comment> \<open>\<open>open(LAST_IP_FILE, "w")\<close> raises and the file stays as it was, or the open
     succeeds, which empties the file, and the write raises\<close>

record faults =
  log_fault :: "nat \<Rightarrow> string option"
  makedirs_fault :: "string option"
  getsize_fault :: "string option"
  rename_fault :: "string option"
  cache_read_fault :: "string option"
  cache_write_fault :: write_fault

text \<open>
  \<open>log_fault f k = Some d\<close>: the call of \<open>log_message\<close> that reads the clock for the
  \<open>k\<close>-th time cannot open or write \<open>LOG_FILE\<close> and raises an \<open>OSError\<close> with text
  \<open>d\<close>. The other fields are the faults of \<open>os.makedirs\<close>, \<open>os.path.getsize\<close>,
  \<open>os.rename\<close>, of reading \<open>LAST_IP_FILE\<close> and of writing it.
\<close>

definition log_and_reads_ok :: "faults \<Rightarrow> bool" where
  \<comment> \<open>every file operation succeeds, but for the write of \<open>LAST_IP_FILE\<close>, of which
     nothing is said\<close>
  "log_and_reads_ok f =
     ((\<forall>k. log_fault f k = None) \<and> makedirs_fault f = None \<and> getsize_fault f = None
      \<and> rename_fault f = None \<and> cache_read_fault f = None)"

definition no_faults :: "faults \<Rightarrow> bool" where
  "no_faults f = (log_and_reads_ok f \<and> cache_write_fault f = WriteOk)"

type_synonym 'a result = "(exn + 'a) \<times> world"

definition andthen :: "'a result \<Rightarrow> ('a \<Rightarrow> world \<Rightarrow> 'b result) \<Rightarrow> 'b result" where
  \<comment> \<open>one statement after another: an exception of the first skips the second\<close>
  "andthen m k = (case m of (Inl x, w) \<Rightarrow> (Inl x, w) | (Inr v, w) \<Rightarrow> k v w)"

definition except_Exception :: "'a result \<Rightarrow> (string \<Rightarrow> world \<Rightarrow> 'a result) \<Rightarrow> 'a result" where
  \<comment> \<open>\<open>try: body except Exception as e: handler\<close>; \<open>KeyboardInterrupt\<close> and
     \<open>SystemExit\<close> are no subclasses of \<open>Exception\<close> and pass\<close>
  "except_Exception body handler =
     (case body of
        (Inl (PyException d), w) \<Rightarrow> handler d w
      | (Inl KeyboardInterrupt, w) \<Rightarrow> (Inl KeyboardInterrupt, w)
      | (Inl (SystemExit n), w) \<Rightarrow> (Inl (SystemExit n), w)
      | (Inr v, w) \<Rightarrow> (Inr v, w))"

definition log_message_io :: "faults \<Rightarrow> env \<Rightarrow> string \<Rightarrow> string \<Rightarrow> world \<Rightarrow> unit result" where
  \<comment> \<open>the clock is read before the file is opened; nothing is printed when the write
     raises\<close>
  "log_message_io f e level message w =
     (case log_fault f (clock w) of
        Some d \<Rightarrow> (Inl (PyException d), w\<lparr>clock := Suc (clock w)\<rparr>)
      | None \<Rightarrow> (Inr (), log_message e level message w))"

definition makedirs_io :: "faults \<Rightarrow> world \<Rightarrow> unit result" where
  "makedirs_io f w =
     (case makedirs_fault f of Some d \<Rightarrow> (Inl (PyException d), w) | None \<Rightarrow> (Inr (), w))"

definition rotate_log_io :: "faults \<Rightarrow> env \<Rightarrow> world \<Rightarrow> unit result" where
  \<comment> \<open>\<open>os.path.isfile\<close> raises nothing; \<open>os.path.getsize\<close> and \<open>os.rename\<close> can\<close>
  "rotate_log_io f e w =
     (case log_file w of
        None \<Rightarrow> (Inr (), w)
      | Some c \<Rightarrow>
          (case getsize_fault f of
             Some d \<Rightarrow> (Inl (PyException d), w)
           | None \<Rightarrow>
               if getsize c > MAX_LOG_SIZE
               then (case rename_fault f of
                       Some d \<Rightarrow> (Inl (PyException d), w)
                     | None \<Rightarrow>
                         log_message_io f e ''INFO'' ''Log file rotated due to size limit''
                           (w\<lparr>log_old := Some c, log_file := None\<rparr>))
               else (Inr (), w)))"

definition try_get_io :: "faults \<Rightarrow> env \<Rightarrow> nat \<Rightarrow> world \<Rightarrow> string option result" where
  \<comment> \<open>the \<open>try\<close> statement of one iteration of \<open>get_public_ip\<close>, as \<open>try_get\<close>; the
     log writes in the body can raise into the \<open>except\<close> clause, and the log write of the
     \<open>except\<close> clause can raise to the caller\<close>
  "try_get_io f e attempt w =
     except_Exception
       (let w1 = w\<lparr>trace := trace w @ [EvGet]\<rparr>
        in case get_reply e attempt of
             Interrupted \<Rightarrow> (Inl KeyboardInterrupt, w1)
           | TransportError d \<Rightarrow> (Inl (PyException d), w1)
           | Response r \<Rightarrow>
               if status_code r = 200
               then (let ip = strip (resp_text r)
                     in if validate_ip ip
                        then andthen
                               (log_message_io f e ''INFO''
                                  (''Successfully retrieved IP address: '' @ ip) w1)
                               (\<lambda>u w2. (Inr (Some ip), w2))
                        else andthen
                               (log_message_io f e ''WARN''
                                  (attempt_label attempt @ ''Invalid IP format: '' @ [quote]
                                     @ ip @ [quote]) w1)
                               (\<lambda>u w2. (Inr None, w2)))
               else andthen
                      (log_message_io f e ''WARN''
                         (attempt_label attempt @ ''HTTP error '' @ str_int (status_code r))
                         w1)
                      (\<lambda>u w2. (Inr None, w2)))
       (\<lambda>d w2.
          andthen
            (log_message_io f e ''WARN''
               (attempt_label attempt @ ''Failed to retrieve IP: '' @ d) w2)
            (\<lambda>u w3. (Inr None, w3)))"

fun get_public_ip_loop_io ::
  "faults \<Rightarrow> env \<Rightarrow> nat list \<Rightarrow> world \<Rightarrow> string option result" where
  "get_public_ip_loop_io f e [] w = (Inr None, w)"
| "get_public_ip_loop_io f e (attempt # rest) w =
     (case try_get_io f e attempt w of
        (Inl x, w1) \<Rightarrow> (Inl x, w1)
      | (Inr (Some ip), w1) \<Rightarrow> (Inr (Some ip), w1)
      | (Inr None, w1) \<Rightarrow>
          if attempt < 2
          then (case sleep e attempt 5 w1 of
                  (Inl x, w2) \<Rightarrow> (Inl x, w2)
                | (Inr u, w2) \<Rightarrow> get_public_ip_loop_io f e rest w2)
          else get_public_ip_loop_io f e rest w1)"

definition get_public_ip_io :: "faults \<Rightarrow> env \<Rightarrow> world \<Rightarrow> string option result" where
  "get_public_ip_io f e w = get_public_ip_loop_io f e [0..<3] w"

definition write_last_ip_io :: "faults \<Rightarrow> string \<Rightarrow> world \<Rightarrow> unit result" where
  \<comment> \<open>\<open>with open(LAST_IP_FILE, "w") as f: f.write(ip)\<close>\<close>
  "write_last_ip_io f ip w =
     (case cache_write_fault f of
        WriteOk \<Rightarrow> (Inr (), w\<lparr>last_ip_file := Some ip\<rparr>)
      | OpenFails d \<Rightarrow> (Inl (PyException d), w)
      | WriteFails d \<Rightarrow> (Inl (PyException d), w\<lparr>last_ip_file := Some []\<rparr>))"

definition update_ddns_io :: "faults \<Rightarrow> env \<Rightarrow> string \<Rightarrow> world \<Rightarrow> bool result" where
  \<comment> \<open>lines 76 to 94: the POST, the log writes and the write of \<open>LAST_IP_FILE\<close> are all
     inside the \<open>try\<close>; the log write of the \<open>except\<close> clause is not\<close>
  "update_ddns_io f e ip w =
     except_Exception
       (let w1 = w\<lparr>trace := trace w @ [EvPost (API_URL e) (TOKEN e) ip]\<rparr>
        in case post_reply e of
             Interrupted \<Rightarrow> (Inl KeyboardInterrupt, w1)
           | TransportError d \<Rightarrow> (Inl (PyException d), w1)
           | Response r \<Rightarrow>
               andthen
                 (log_message_io f e ''DEBUG'' (''API Response: '' @ resp_text r) w1)
                 (\<lambda>u w2.
                    if response_ok r \<and> success_body (resp_text r)
                    then andthen
                           (log_message_io f e ''INFO'' ''DNS record updated successfully'' w2)
                           (\<lambda>u w3.
                              andthen (write_last_ip_io f ip w3) (\<lambda>u w4. (Inr True, w4)))
                    else andthen
                           (log_message_io f e ''ERROR''
                              (''API request failed: '' @ py_str (error_msg r)) w2)
                           (\<lambda>u w3. (Inr False, w3))))
       (\<lambda>d w2.
          andthen
            (log_message_io f e ''ERROR'' (''API request exception: '' @ d) w2)
            (\<lambda>u w3. (Inr False, w3)))"

definition read_last_ip_io :: "faults \<Rightarrow> world \<Rightarrow> string option result" where
  \<comment> \<open>lines 106 to 108: \<open>None\<close> when there is no file, else the stripped content\<close>
  "read_last_ip_io f w =
     (case last_ip_file w of
        None \<Rightarrow> (Inr None, w)
      | Some c \<Rightarrow>
          (case cache_read_fault f of
             Some d \<Rightarrow> (Inl (PyException d), w)
           | None \<Rightarrow> (Inr (Some (strip c)), w)))"

definition exit_with :: "int \<Rightarrow> unit \<Rightarrow> world \<Rightarrow> unit result" where
  \<comment> \<open>\<open>sys.exit(n)\<close>\<close>
  "exit_with n u w = (Inl (SystemExit n), w)"

definition update_and_exit_io :: "faults \<Rightarrow> env \<Rightarrow> string \<Rightarrow> world \<Rightarrow> unit result" where
  "update_and_exit_io f e ip w =
     andthen (update_ddns_io f e ip w)
       (\<lambda>ok w1.
          if ok
          then andthen
                 (log_message_io f e ''INFO'' (''IP successfully updated to '' @ ip) w1)
                 (exit_with 0)
          else andthen (log_message_io f e ''ERROR'' ''Failed to update DDNS'' w1)
                 (exit_with 1))"

definition compare_and_update_io ::
  "faults \<Rightarrow> env \<Rightarrow> string option \<Rightarrow> world \<Rightarrow> unit result" where
  "compare_and_update_io f e ip_opt w =
     (case ip_opt of
        None \<Rightarrow>
          andthen
            (log_message_io f e ''ERROR''
               ''Failed to get valid public IP after 3 attempts'' w)
            (exit_with 1)
      | Some ip \<Rightarrow>
          if ip = []
          then andthen
                 (log_message_io f e ''ERROR''
                    ''Failed to get valid public IP after 3 attempts'' w)
                 (exit_with 1)
          else andthen (read_last_ip_io f w)
                 (\<lambda>last_ip w1.
                    if last_ip = Some ip
                    then andthen
                           (log_message_io f e ''INFO''
                              (''IP address unchanged ('' @ ip @ ''), skipping update'') w1)
                           (exit_with 0)
                    else update_and_exit_io f e ip w1))"

definition main_io :: "faults \<Rightarrow> env \<Rightarrow> world \<Rightarrow> unit result" where
  "main_io f e w =
     andthen (log_message_io f e ''INFO'' ''Starting VolaryDDNS update process'' w)
       (\<lambda>u w1.
          andthen (makedirs_io f w1)
            (\<lambda>u w2.
               andthen (rotate_log_io f e w2)
                 (\<lambda>u w3.
                    andthen (get_public_ip_io f e w3) (compare_and_update_io f e))))"

definition script_io :: "faults \<Rightarrow> env \<Rightarrow> world \<Rightarrow> process_end \<times> world" where
  \<comment> \<open>the \<open>__main__\<close> guard catches \<open>KeyboardInterrupt\<close> only; every other exception
     but \<open>SystemExit\<close> ends the process in a traceback\<close>
  "script_io f e w =
     (case main_io f e w of
        (Inl KeyboardInterrupt, w1) \<Rightarrow>
          (case log_message_io f e ''ERROR'' ''Script interrupted'' w1 of
             (Inl x, w2) \<Rightarrow> (Traceback x, w2)
           | (Inr u, w2) \<Rightarrow> (Exit 130, w2))
      | (Inl (SystemExit n), w1) \<Rightarrow> (Exit n, w1)
      | (Inl (PyException d), w1) \<Rightarrow> (Traceback (PyException d), w1)
      | (Inr u, w1) \<Rightarrow> (Exit 0, w1))"

section \<open>Notions used in the statements\<close>

fun is_post :: "event \<Rightarrow> bool" where
  "is_post (EvPost url token ip) = True"
| "is_post ev = False"

definition attempt_fails :: "net_outcome \<Rightarrow> bool" where
  \<comment> \<open>an attempt that fails: a status other than 200, a transport error, or a body that
     is no valid IP after stripping\<close>
  "attempt_fails out =
     (case out of
        Response r \<Rightarrow> status_code r \<noteq> 200 \<or> \<not> validate_ip (strip (resp_text r))
      | TransportError d \<Rightarrow> True
      | Interrupted \<Rightarrow> False)"

definition attempt_events :: "nat \<Rightarrow> event list" where
  \<comment> \<open>what a failed attempt \<open>k\<close> leaves in the trace: the GET, and the sleep when another
     attempt follows\<close>
  "attempt_events k = (if k < 2 then [EvGet, EvSleep 5] else [EvGet])"

definition error_logged :: "string \<Rightarrow> world \<Rightarrow> bool" where
  \<comment> \<open>the log file ends with an entry of level ERROR and this message\<close>
  "error_logged message w =
     (\<exists>c ts. log_file w = Some (c @ log_entry ts ''ERROR'' message))"

definition log_extends :: "world \<Rightarrow> world \<Rightarrow> bool" where
  \<comment> \<open>from \<open>w\<close> to \<open>w'\<close> the old log is untouched and the log file has only grown at its
     end\<close>
  "log_extends w w' =
     (log_old w' = log_old w
      \<and> (\<forall>c. log_file w = Some c \<longrightarrow> (\<exists>s. log_file w' = Some (c @ s))))"

definition start_message :: string where
  "start_message = ''Starting VolaryDDNS update process''"

definition rotation_notice :: string where
  "rotation_notice = ''Log file rotated due to size limit''"

definition usable_field :: "response \<Rightarrow> string \<Rightarrow> pyval option" where
  \<comment> \<open>the value of field \<open>k\<close> of the body when the body parses to a JSON object that
     has the field with a value Python counts as true\<close>
  "usable_field r k =
     (case resp_json r of
        JsonObject d \<Rightarrow>
          (case d k of None \<Rightarrow> None | Some v \<Rightarrow> if truthy v then Some v else None)
      | JsonNonObject \<Rightarrow> None
      | JsonDecodeError \<Rightarrow> None)"

definition fields_absent :: "response \<Rightarrow> bool" where
  \<comment> \<open>JSON parsing fails, or the parsed value has neither an \<open>error\<close> nor a \<open>message\<close>
     field\<close>
  "fields_absent r =
     (case resp_json r of
        JsonObject d \<Rightarrow> d ''error'' = None \<and> d ''message'' = None
      | JsonNonObject \<Rightarrow> True
      | JsonDecodeError \<Rightarrow> True)"

definition digits13 :: rx where
  \<comment> \<open>\<open>\d{1,3}\<close>\<close>
  "digits13 = Rep 1 3 Digit"

definition dot_group :: rx where
  \<comment> \<open>\<open>\.\d{1,3}\<close>\<close>
  "dot_group = Seq (Lit CHR ''.'') digits13"

fun join_dot :: "string list \<Rightarrow> string" where
  \<comment> \<open>\<open>".".join(groups)\<close>\<close>
  "join_dot [] = []"
| "join_dot [g] = g"
| "join_dot (g # gs) = g @ CHR ''.'' # join_dot gs"

subsection \<open>Concrete runs\<close>

text \<open>
  Environments and start states for the examples: a service that answers at once
  (\<open>env_ok\<close>), one whose update endpoint refuses the connection or rejects the update,
  an IP-echo service that fails three times, and an interrupt during the first GET.
\<close>

definition ts0 :: "nat \<Rightarrow> string" where
  "ts0 k = ''2025-06-01 12:00:0'' @ digits k"

definition resp_ip :: response where
  "resp_ip =
     \<lparr>status_code = 200, resp_text = ''198.51.100.9\<newline>'', resp_json = JsonDecodeError\<rparr>"

definition resp_updated :: response where
  "resp_updated =
     \<lparr>status_code = 200, resp_text = ''Updated OK'', resp_json = JsonDecodeError\<rparr>"

definition env_ok :: env where
  "env_ok =
     \<lparr>TOKEN = ''tok'', API_URL = ''https://ddns.example/api/update'', now = ts0,
      get_reply = (\<lambda>k. Response resp_ip), sleep_interrupted = (\<lambda>k. False),
      post_reply = Response resp_updated\<rparr>"

definition w_fresh :: world where
  "w_fresh =
     \<lparr>log_file = None, log_old = None, last_ip_file = None, stdout = [], stderr = [],
      clock = 0, trace = []\<rparr>"

definition env_refused :: env where
  "env_refused = env_ok\<lparr>post_reply := TransportError ''Connection refused''\<rparr>"

definition w_cached :: world where
  "w_cached = w_fresh\<lparr>last_ip_file := Some ''203.0.113.5''\<rparr>"

definition env_down :: env where
  "env_down =
     env_ok\<lparr>get_reply :=
       (\<lambda>k. if k = 0 then TransportError ''Read timed out''
            else if k = 1
            then Response \<lparr>status_code = 503, resp_text = ''Service Unavailable'',
                           resp_json = JsonDecodeError\<rparr>
            else Response \<lparr>status_code = 200, resp_text = ''<html>blocked</html>'',
                           resp_json = JsonDecodeError\<rparr>)\<rparr>"

definition env_interrupted :: env where
  "env_interrupted = env_ok\<lparr>get_reply := (\<lambda>k. Interrupted)\<rparr>"

definition w_same :: world where
  "w_same = w_fresh\<lparr>last_ip_file := Some ''198.51.100.9''\<rparr>"

definition w_same_nl :: world where
  "w_same_nl = w_fresh\<lparr>last_ip_file := Some ''198.51.100.9\<newline>''\<rparr>"

definition big_log :: string where
  "big_log = replicate 1048577 CHR ''x''"

definition w_big :: world where
  "w_big = w_fresh\<lparr>log_file := Some big_log\<rparr>"

definition resp_empty_error :: response where
  \<open>resp_empty_error =
     \<lparr>status_code = 400, resp_text = ''{"error": ""}'',
      resp_json = JsonObject [''error'' \<mapsto> PStr '''']\<rparr>\<close>

definition env_rejected :: env where
  "env_rejected = env_ok\<lparr>post_reply := Response resp_empty_error\<rparr>"

definition faults_none :: faults where
  "faults_none =
     \<lparr>log_fault = (\<lambda>k. None), makedirs_fault = None, getsize_fault = None,
      rename_fault = None, cache_read_fault = None, cache_write_fault = WriteOk\<rparr>"

definition faults_log_denied :: faults where
  \<comment> \<open>the log file cannot be opened\<close>
  "faults_log_denied = faults_none\<lparr>log_fault := (\<lambda>k. Some ''[Errno 13] Permission denied'')\<rparr>"

definition faults_cache_readonly :: faults where
  \<comment> \<open>the last-known-IP file cannot be opened for writing\<close>
  "faults_cache_readonly =
     faults_none\<lparr>cache_write_fault := OpenFails ''[Errno 13] Permission denied''\<rparr>"

section \<open>Strings\<close>

text \<open>\<open>contains\<close> is the substring test: some text before, the key, some text after.\<close>

lemma contains_iff: "contains k s \<longleftrightarrow> (\<exists>p q. s = p @ k @ q)"
proof (induction s)
  case Nil
  then show ?case by simp
next
  case (Cons c cs)
  have "(\<exists>p q. c # cs = p @ k @ q) \<longleftrightarrow> prefix k (c # cs) \<or> (\<exists>p q. cs = p @ k @ q)"
  proof
    assume "\<exists>p q. c # cs = p @ k @ q"
    then obtain p q where pq: "c # cs = p @ k @ q" by blast
    show "prefix k (c # cs) \<or> (\<exists>p q. cs = p @ k @ q)"
    proof (cases p)
      case Nil
      with pq show ?thesis by (simp add: prefix_def)
    next
      case (Cons a p')
      with pq have "cs = p' @ k @ q" by simp
      then show ?thesis by blast
    qed
  next
    assume "prefix k (c # cs) \<or> (\<exists>p q. cs = p @ k @ q)"
    then show "\<exists>p q. c # cs = p @ k @ q"
    proof
      assume "prefix k (c # cs)"
      then obtain q where "c # cs = k @ q" by (auto simp: prefix_def)
      then have "c # cs = [] @ k @ q" by simp
      then show ?thesis by blast
    next
      assume "\<exists>p q. cs = p @ k @ q"
      then obtain p q where "cs = p @ k @ q" by blast
      then have "c # cs = (c # p) @ k @ q" by simp
      then show ?thesis by blast
    qed
  qed
  with Cons show ?case by simp
qed

lemma strip_idem: "strip (strip s) = strip s"
proof -
  define t where "t = dropWhile isspace s"
  define u where "u = dropWhile isspace (rev t)"
  have u: "u = [] \<or> \<not> isspace (hd u)"
    unfolding u_def using hd_dropWhile [of isspace "rev t"] by blast
  have t: "t = [] \<or> \<not> isspace (hd t)"
    unfolding t_def using hd_dropWhile [of isspace s] by blast
  have ru: "rev u = [] \<or> \<not> isspace (hd (rev u))"
  proof (cases "u = []")
    case True
    then show ?thesis by simp
  next
    case False
    obtain ys where ys: "rev t = ys @ u"
      unfolding u_def by (metis takeWhile_dropWhile_id)
    have "t = rev u @ rev ys"
      using ys by (metis rev_append rev_rev_ident)
    then have "hd t = hd (rev u)" and "t \<noteq> []"
      using False by simp_all
    then show ?thesis using t by metis
  qed
  have 1: "dropWhile isspace (rev u) = rev u"
    using ru by (simp add: dropWhile_eq_self_iff)
  have 2: "dropWhile isspace u = u"
    using u by (simp add: dropWhile_eq_self_iff)
  have "strip s = rev u"
    by (simp add: strip_def u_def t_def)
  then show ?thesis
    by (simp add: strip_def 1 2)
qed

section \<open>\<open>validate_ip\<close>\<close>

lemma iter_Digit:
  "(q, r') \<in> set (iter k (ends Digit) (p, r)) \<longleftrightarrow>
     (\<exists>g. r = g @ r' \<and> length g = k \<and> list_all is_digit g \<and> q = p + k)"
proof (induction k arbitrary: p r)
  case 0
  then show ?case by auto
next
  case (Suc k)
  show ?case
  proof (cases r)
    case Nil
    then show ?thesis by simp
  next
    case (Cons c cs)
    show ?thesis
    proof (cases "is_digit c")
      case True
      have "(q, r') \<in> set (iter (Suc k) (ends Digit) (p, r)) \<longleftrightarrow>
            (q, r') \<in> set (iter k (ends Digit) (Suc p, cs))"
        using Cons True by simp
      also have "\<dots> \<longleftrightarrow> (\<exists>g. cs = g @ r' \<and> length g = k \<and> list_all is_digit g \<and> q = Suc p + k)"
        by (rule Suc.IH)
      also have "\<dots> \<longleftrightarrow> (\<exists>g. r = g @ r' \<and> length g = Suc k \<and> list_all is_digit g \<and> q = p + Suc k)"
      proof
        assume "\<exists>g. cs = g @ r' \<and> length g = k \<and> list_all is_digit g \<and> q = Suc p + k"
        then obtain g where "cs = g @ r'" "length g = k" "list_all is_digit g" "q = Suc p + k"
          by blast
        then have "r = (c # g) @ r' \<and> length (c # g) = Suc k \<and> list_all is_digit (c # g)
                   \<and> q = p + Suc k"
          using Cons True by simp
        then show "\<exists>g. r = g @ r' \<and> length g = Suc k \<and> list_all is_digit g \<and> q = p + Suc k"
          by blast
      next
        assume "\<exists>g. r = g @ r' \<and> length g = Suc k \<and> list_all is_digit g \<and> q = p + Suc k"
        then obtain g where g: "r = g @ r'" "length g = Suc k" "list_all is_digit g" "q = p + Suc k"
          by blast
        then obtain g' where "g = c # g'"
          using Cons by (cases g) auto
        then have "cs = g' @ r' \<and> length g' = k \<and> list_all is_digit g' \<and> q = Suc p + k"
          using g Cons by simp
        then show "\<exists>g. cs = g @ r' \<and> length g = k \<and> list_all is_digit g \<and> q = Suc p + k"
          by blast
      qed
      finally show ?thesis .
    next
      case False
      have "\<not> (\<exists>g. r = g @ r' \<and> length g = Suc k \<and> list_all is_digit g \<and> q = p + Suc k)"
      proof
        assume "\<exists>g. r = g @ r' \<and> length g = Suc k \<and> list_all is_digit g \<and> q = p + Suc k"
        then obtain g where g: "r = g @ r'" "length g = Suc k" "list_all is_digit g" by blast
        then obtain g' where "g = c # g'"
          using Cons by (cases g) auto
        then show False using g False by simp
      qed
      then show ?thesis using Cons False by simp
    qed
  qed
qed

lemma ends_digits13:
  "(q, r') \<in> set (ends digits13 (p, r)) \<longleftrightarrow>
     (\<exists>g. r = g @ r' \<and> digit_group g \<and> q = p + length g)"
proof -
  have "(q, r') \<in> set (ends digits13 (p, r)) \<longleftrightarrow>
        (\<exists>k. 1 \<le> k \<and> k \<le> 3 \<and> (q, r') \<in> set (iter k (ends Digit) (p, r)))"
    unfolding digits13_def by (auto simp del: iter.simps ends.simps(3))
  also have "\<dots> \<longleftrightarrow> (\<exists>k. 1 \<le> k \<and> k \<le> 3 \<and>
      (\<exists>g. r = g @ r' \<and> length g = k \<and> list_all is_digit g \<and> q = p + k))"
    by (simp only: iter_Digit)
  also have "\<dots> \<longleftrightarrow> (\<exists>g. r = g @ r' \<and> digit_group g \<and> q = p + length g)"
    unfolding digit_group_def by auto
  finally show ?thesis .
qed

lemma ends_Seq_mem:
  "x \<in> set (ends (Seq a b) st) \<longleftrightarrow> (\<exists>st'\<in>set (ends a st). x \<in> set (ends b st'))"
  by simp

lemma ends_Lit_mem:
  "x \<in> set (ends (Lit a) (p, r)) \<longleftrightarrow> (\<exists>cs. r = a # cs \<and> x = (Suc p, cs))"
  by (cases r) auto

lemma ends_dot_group:
  "(q, r') \<in> set (ends dot_group (p, r)) \<longleftrightarrow>
     (\<exists>g. r = CHR ''.'' # g @ r' \<and> digit_group g \<and> q = Suc (p + length g))"
proof -
  have "(q, r') \<in> set (ends dot_group (p, r)) \<longleftrightarrow>
        (\<exists>cs. r = CHR ''.'' # cs \<and> (q, r') \<in> set (ends digits13 (Suc p, cs)))"
    unfolding dot_group_def ends_Seq_mem by (auto simp: ends_Lit_mem simp del: ends.simps)
  then show ?thesis
    by (auto simp: ends_digits13 simp del: ends.simps)
qed

lemma iter_Suc_mem:
  "x \<in> set (iter (Suc k) f st) \<longleftrightarrow> (\<exists>st'\<in>set (f st). x \<in> set (iter k f st'))"
  by auto

lemma iter_dot_group_Suc:
  "(q, r') \<in> set (iter (Suc k) (ends dot_group) (p, r)) \<longleftrightarrow>
     (\<exists>g r1. r = CHR ''.'' # g @ r1 \<and> digit_group g
        \<and> (q, r') \<in> set (iter k (ends dot_group) (Suc (p + length g), r1)))"
proof -
  have "(q, r') \<in> set (iter (Suc k) (ends dot_group) (p, r)) \<longleftrightarrow>
        (\<exists>q1 r1. (q1, r1) \<in> set (ends dot_group (p, r))
           \<and> (q, r') \<in> set (iter k (ends dot_group) (q1, r1)))"
    unfolding iter_Suc_mem by auto
  also have "\<dots> \<longleftrightarrow> (\<exists>q1 r1. (\<exists>g. r = CHR ''.'' # g @ r1 \<and> digit_group g \<and> q1 = Suc (p + length g))
           \<and> (q, r') \<in> set (iter k (ends dot_group) (q1, r1)))"
    by (simp only: ends_dot_group)
  also have "\<dots> \<longleftrightarrow> (\<exists>g r1. r = CHR ''.'' # g @ r1 \<and> digit_group g
        \<and> (q, r') \<in> set (iter k (ends dot_group) (Suc (p + length g), r1)))"
    by blast
  finally show ?thesis .
qed

lemma iter_0_mem: "(q, r') \<in> set (iter 0 f (p, r)) \<longleftrightarrow> q = p \<and> r' = r"
  by auto

lemma iter3_dot_group:
  "(\<exists>q. (q, r') \<in> set (iter 3 (ends dot_group) (p, r))) \<longleftrightarrow>
     (\<exists>g1 g2 g3. r = CHR ''.'' # g1 @ CHR ''.'' # g2 @ CHR ''.'' # g3 @ r'
        \<and> digit_group g1 \<and> digit_group g2 \<and> digit_group g3)"
proof -
  have 3: "(3::nat) = Suc (Suc (Suc 0))" by simp
  show ?thesis
    unfolding 3 iter_dot_group_Suc iter_0_mem by blast
qed

lemma ends_Rep_3_3:
  "ends (Rep 3 3 a) st = iter 3 (ends a) st"
  by (simp add: upt_rec del: iter.simps)

lemma pattern_alt: "pattern = Seq Bol (Seq digits13 (Seq (Rep 3 3 dot_group) Eol))"
  by (simp add: pattern_def digits13_def dot_group_def)

lemma ends_Eol_mem:
  "x \<in> set (ends Eol (p, r)) \<longleftrightarrow> x = (p, r) \<and> (r = [] \<or> r = [CHR ''\<newline>''])"
  by auto

lemma ends_Bol_0: "ends Bol (0, s) = [(0, s)]"
  by simp

lemma validate_ip_iff_groups:
  "validate_ip s \<longleftrightarrow>
     (\<exists>g1 g2 g3 g4 t. s = g1 @ CHR ''.'' # g2 @ CHR ''.'' # g3 @ CHR ''.'' # g4 @ t
        \<and> digit_group g1 \<and> digit_group g2 \<and> digit_group g3 \<and> digit_group g4
        \<and> (t = [] \<or> t = [CHR ''\<newline>'']))"
proof -
  have "validate_ip s \<longleftrightarrow> (\<exists>x. x \<in> set (ends pattern (0, s)))"
    unfolding validate_ip_def re_match_def by (cases "ends pattern (0, s)") auto
  also have "\<dots> \<longleftrightarrow> (\<exists>q1 r1. (q1, r1) \<in> set (ends digits13 (0, s))
       \<and> (\<exists>q2 r2. (q2, r2) \<in> set (iter 3 (ends dot_group) (q1, r1))
            \<and> (r2 = [] \<or> r2 = [CHR ''\<newline>''])))"
    unfolding pattern_alt ends_Seq_mem ends_Bol_0 ends_Rep_3_3
    by (simp only: list.set Bex_def split_paired_Ex ends_Eol_mem singleton_iff) blast
  also have "\<dots> \<longleftrightarrow> (\<exists>g1 r1. s = g1 @ r1 \<and> digit_group g1
       \<and> (\<exists>r2. (\<exists>q2. (q2, r2) \<in> set (iter 3 (ends dot_group) (length g1, r1)))
            \<and> (r2 = [] \<or> r2 = [CHR ''\<newline>''])))"
    unfolding ends_digits13 by (simp only: add_0) blast
  also have "\<dots> \<longleftrightarrow> (\<exists>g1 g2 g3 g4 t. s = g1 @ CHR ''.'' # g2 @ CHR ''.'' # g3 @ CHR ''.'' # g4 @ t
        \<and> digit_group g1 \<and> digit_group g2 \<and> digit_group g3 \<and> digit_group g4
        \<and> (t = [] \<or> t = [CHR ''\<newline>'']))"
    unfolding iter3_dot_group by blast
  finally show ?thesis .
qed

lemma split_dot_nonempty: "split_dot s \<noteq> []"
  by (cases s) (simp_all split: list.split)

lemma split_dot_last: "CHR ''.'' \<notin> set g \<Longrightarrow> split_dot g = [g]"
proof (induction g)
  case Nil
  then show ?case by simp
next
  case (Cons a g)
  have a: "a \<noteq> CHR ''.''"
    using Cons.prems by (metis list.set_intros(1))
  have "CHR ''.'' \<notin> set g"
    using Cons.prems by (metis list.set_intros(2))
  then have "split_dot g = [g]"
    by (rule Cons.IH)
  then show ?case
    using a by simp
qed

lemma split_dot_group:
  "CHR ''.'' \<notin> set g \<Longrightarrow> split_dot (g @ CHR ''.'' # rest) = g # split_dot rest"
proof (induction g)
  case Nil
  then show ?case by simp
next
  case (Cons a g)
  have a: "a \<noteq> CHR ''.''"
    using Cons.prems by (metis list.set_intros(1))
  have "CHR ''.'' \<notin> set g"
    using Cons.prems by (metis list.set_intros(2))
  then have "split_dot (g @ CHR ''.'' # rest) = g # split_dot rest"
    by (rule Cons.IH)
  then show ?case
    using a by simp
qed

lemma is_digit_not_dot: "is_digit c \<Longrightarrow> c \<noteq> CHR ''.''"
  by (auto simp: is_digit_def)

lemma digit_group_no_dot: "digit_group g \<Longrightarrow> CHR ''.'' \<notin> set g"
  unfolding digit_group_def list_all_iff using is_digit_not_dot by blast

lemma join_split_dot: "join_dot (split_dot s) = s"
proof (induction s)
  case Nil
  then show ?case by simp
next
  case (Cons c cs)
  obtain g gs where gs: "split_dot cs = g # gs"
    using split_dot_nonempty [of cs] by (cases "split_dot cs") auto
  show ?case
  proof (cases "c = CHR ''.''")
    case True
    then show ?thesis using Cons gs by simp
  next
    case False
    have "join_dot ((c # g) # gs) = c # join_dot (g # gs)"
      by (cases gs) simp_all
    then show ?thesis using Cons gs False by simp
  qed
qed

lemma dotted_quad_iff:
  "dotted_quad s \<longleftrightarrow>
     (\<exists>g1 g2 g3 g4. s = g1 @ CHR ''.'' # g2 @ CHR ''.'' # g3 @ CHR ''.'' # g4
        \<and> digit_group g1 \<and> digit_group g2 \<and> digit_group g3 \<and> digit_group g4)"
proof
  assume d: "dotted_quad s"
  then have "length (split_dot s) = 4" by (simp add: dotted_quad_def)
  then obtain g1 g2 g3 g4 where g: "split_dot s = [g1, g2, g3, g4]"
    by (auto simp: length_Suc_conv numeral_eq_Suc)
  have "s = join_dot [g1, g2, g3, g4]"
    using join_split_dot [of s] g by simp
  then have "s = g1 @ CHR ''.'' # g2 @ CHR ''.'' # g3 @ CHR ''.'' # g4"
    by simp
  moreover have "digit_group g1 \<and> digit_group g2 \<and> digit_group g3 \<and> digit_group g4"
    using d g by (simp add: dotted_quad_def)
  ultimately show "\<exists>g1 g2 g3 g4. s = g1 @ CHR ''.'' # g2 @ CHR ''.'' # g3 @ CHR ''.'' # g4
        \<and> digit_group g1 \<and> digit_group g2 \<and> digit_group g3 \<and> digit_group g4"
    by blast
next
  assume "\<exists>g1 g2 g3 g4. s = g1 @ CHR ''.'' # g2 @ CHR ''.'' # g3 @ CHR ''.'' # g4
        \<and> digit_group g1 \<and> digit_group g2 \<and> digit_group g3 \<and> digit_group g4"
  then obtain g1 g2 g3 g4 where s: "s = g1 @ CHR ''.'' # g2 @ CHR ''.'' # g3 @ CHR ''.'' # g4"
    and g: "digit_group g1" "digit_group g2" "digit_group g3" "digit_group g4"
    by blast
  have "split_dot s = [g1, g2, g3, g4]"
    using g by (simp add: s split_dot_group split_dot_last digit_group_no_dot)
  then show "dotted_quad s"
    using g by (simp add: dotted_quad_def)
qed

lemma quad_with_tail:
  assumes "digit_group g1" "digit_group g2" "digit_group g3" "digit_group g4"
    and "u = [] \<or> u = [CHR ''\<newline>'']"
  shows "validate_ip ((g1 @ CHR ''.'' # g2 @ CHR ''.'' # g3 @ CHR ''.'' # g4) @ u)"
proof -
  have "(g1 @ CHR ''.'' # g2 @ CHR ''.'' # g3 @ CHR ''.'' # g4) @ u =
        g1 @ CHR ''.'' # g2 @ CHR ''.'' # g3 @ CHR ''.'' # g4 @ u"
    by simp
  then show ?thesis
    unfolding validate_ip_iff_groups using assms by blast
qed

text \<open>
  What \<open>validate_ip\<close> accepts: the dotted quads, and the dotted quads followed by one
  newline.
\<close>

lemma validate_ip_iff:
  "validate_ip s \<longleftrightarrow> dotted_quad s \<or> (\<exists>t. s = t @ [CHR ''\<newline>''] \<and> dotted_quad t)"
proof
  assume "validate_ip s"
  then obtain g1 g2 g3 g4 u where
    s: "s = g1 @ CHR ''.'' # g2 @ CHR ''.'' # g3 @ CHR ''.'' # g4 @ u"
    and g: "digit_group g1" "digit_group g2" "digit_group g3" "digit_group g4"
    and u: "u = [] \<or> u = [CHR ''\<newline>'']"
    unfolding validate_ip_iff_groups by blast
  define q where "q = g1 @ CHR ''.'' # g2 @ CHR ''.'' # g3 @ CHR ''.'' # g4"
  have q: "dotted_quad q"
    unfolding dotted_quad_iff q_def using g by blast
  have "s = q @ u"
    by (simp add: s q_def)
  then show "dotted_quad s \<or> (\<exists>t. s = t @ [CHR ''\<newline>''] \<and> dotted_quad t)"
    using q u by auto
next
  assume "dotted_quad s \<or> (\<exists>t. s = t @ [CHR ''\<newline>''] \<and> dotted_quad t)"
  then obtain q u where qu: "s = q @ u" "dotted_quad q" "u = [] \<or> u = [CHR ''\<newline>'']"
    by (metis append_Nil2)
  obtain g1 g2 g3 g4 where
    "q = g1 @ CHR ''.'' # g2 @ CHR ''.'' # g3 @ CHR ''.'' # g4"
    "digit_group g1" "digit_group g2" "digit_group g3" "digit_group g4"
    using qu(2) unfolding dotted_quad_iff by blast
  then show "validate_ip s"
    using quad_with_tail [of g1 g2 g3 g4 u] qu(1,3) by simp
qed

text \<open>
  C1. \<open>validate_ip\<close> should return true for the dotted quads and false for every other
  string. The string \<open>1.2.3.4\<close> followed by a newline is no dotted quad, and
  \<open>validate_ip\<close> returns true for it: \<open>$\<close> also matches before a final newline.
\<close>

theorem validate_ip_trailing_newline:
  "validate_ip ''1.2.3.4\<newline>'' \<and> \<not> dotted_quad ''1.2.3.4\<newline>''"
  by code_simp

section \<open>What each function leaves alone\<close>

lemma log_message_log_file:
  "log_file (log_message e level message w) =
     append_file (log_file w) (log_entry (now e (clock w)) level message)"
  by (simp add: log_message_def Let_def)

lemma log_message_last_ip_file [simp]:
  "last_ip_file (log_message e level message w) = last_ip_file w"
  by (simp add: log_message_def Let_def)

lemma log_message_log_old [simp]:
  "log_old (log_message e level message w) = log_old w"
  by (simp add: log_message_def Let_def)

lemma log_message_trace [simp]:
  "trace (log_message e level message w) = trace w"
  by (simp add: log_message_def Let_def)

lemma log_message_clock [simp]:
  "clock (log_message e level message w) = Suc (clock w)"
  by (simp add: log_message_def Let_def)

lemma try_get_trace: "trace (snd (try_get e k w)) = trace w @ [EvGet]"
  by (simp add: try_get_def Let_def split: net_outcome.splits)

lemma try_get_last_ip_file: "last_ip_file (snd (try_get e k w)) = last_ip_file w"
  by (simp add: try_get_def Let_def split: net_outcome.splits)

lemma try_get_log_old: "log_old (snd (try_get e k w)) = log_old w"
  by (simp add: try_get_def Let_def split: net_outcome.splits)

lemma try_get_grows:
  "log_file w = Some c \<Longrightarrow> \<exists>s. log_file (snd (try_get e k w)) = Some (c @ s)"
  by (simp add: try_get_def Let_def log_message_log_file append_file_def split: net_outcome.splits)

lemma try_get_result:
  "fst (try_get e k w) =
     (case get_reply e k of
        Interrupted \<Rightarrow> Inl KeyboardInterrupt
      | TransportError d \<Rightarrow> Inr None
      | Response r \<Rightarrow>
          if status_code r = 200 \<and> validate_ip (strip (resp_text r))
          then Inr (Some (strip (resp_text r))) else Inr None)"
  by (simp add: try_get_def Let_def split: net_outcome.splits)

lemma sleep_snd: "snd (sleep e k n w) = w\<lparr>trace := trace w @ [EvSleep n]\<rparr>"
  by (simp add: sleep_def Let_def)

lemma sleep_fst:
  "fst (sleep e k n w) = (if sleep_interrupted e k then Inl KeyboardInterrupt else Inr ())"
  by (simp add: sleep_def Let_def)

lemma loop_result_indep:
  "fst (get_public_ip_loop e ks w) = fst (get_public_ip_loop e ks w')"
proof (induction ks arbitrary: w w')
  case Nil
  then show ?case by simp
next
  case (Cons k ks)
  obtain r w1 where a: "try_get e k w = (r, w1)" by (cases "try_get e k w")
  obtain r' w1' where b: "try_get e k w' = (r', w1')" by (cases "try_get e k w'")
  have rr: "r' = r"
    using a b try_get_result [of e k w] try_get_result [of e k w'] by simp
  obtain s w2 where c: "sleep e k 5 w1 = (s, w2)" by (cases "sleep e k 5 w1")
  obtain s' w2' where d: "sleep e k 5 w1' = (s', w2')" by (cases "sleep e k 5 w1'")
  have ss: "s' = s"
    using c d sleep_fst [of e k 5 w1] sleep_fst [of e k 5 w1'] by simp
  show ?case
    using Cons.IH [of w2 w2'] Cons.IH [of w1 w1']
    by (simp add: a b rr c d ss split: sum.splits option.splits)
qed

lemma loop_frame:
  "last_ip_file (snd (get_public_ip_loop e ks w)) = last_ip_file w
   \<and> log_old (snd (get_public_ip_loop e ks w)) = log_old w"
proof (induction ks arbitrary: w)
  case Nil
  then show ?case by simp
next
  case (Cons k ks)
  obtain r w1 where a: "try_get e k w = (r, w1)" by (cases "try_get e k w")
  have f1: "last_ip_file w1 = last_ip_file w" "log_old w1 = log_old w"
    using a try_get_last_ip_file [of e k w] try_get_log_old [of e k w] by simp_all
  obtain s w2 where c: "sleep e k 5 w1 = (s, w2)" by (cases "sleep e k 5 w1")
  have f2: "last_ip_file w2 = last_ip_file w" "log_old w2 = log_old w"
    using c sleep_snd [of e k 5 w1] f1 by simp_all
  show ?case
    using Cons.IH [of w2] Cons.IH [of w1]
    by (simp add: a c f1 f2 split: sum.splits option.splits)
qed

lemma loop_grows:
  "log_file w = Some c \<Longrightarrow> \<exists>s. log_file (snd (get_public_ip_loop e ks w)) = Some (c @ s)"
proof (induction ks arbitrary: w c)
  case Nil
  then show ?case by simp
next
  case (Cons k ks)
  obtain r w1 where a: "try_get e k w = (r, w1)" by (cases "try_get e k w")
  obtain s1 where g1: "log_file w1 = Some (c @ s1)"
    using a try_get_grows [OF Cons.prems, of e k] by auto
  obtain s w2 where b: "sleep e k 5 w1 = (s, w2)" by (cases "sleep e k 5 w1")
  have g2: "log_file w2 = Some (c @ s1)"
    using b sleep_snd [of e k 5 w1] g1 by simp
  from Cons.IH [OF g1] obtain t1 where
    h1: "log_file (snd (get_public_ip_loop e ks w1)) = Some (c @ s1 @ t1)" by auto
  from Cons.IH [OF g2] obtain t2 where
    h2: "log_file (snd (get_public_ip_loop e ks w2)) = Some (c @ s1 @ t2)" by auto
  show ?case
    using g1 g2 h1 h2
    by (simp add: a b split: sum.splits option.splits)
qed

lemma loop_raises:
  "fst (get_public_ip_loop e ks w) = Inl x \<Longrightarrow> x = KeyboardInterrupt"
proof (induction ks arbitrary: w)
  case Nil
  then show ?case by simp
next
  case (Cons k ks)
  obtain r w1 where a: "try_get e k w = (r, w1)" by (cases "try_get e k w")
  have r: "r = Inl KeyboardInterrupt \<or> (\<exists>v. r = Inr v)"
    using a try_get_result [of e k w] by (auto split: net_outcome.splits if_splits)
  obtain s w2 where b: "sleep e k 5 w1 = (s, w2)" by (cases "sleep e k 5 w1")
  have s: "s = Inl KeyboardInterrupt \<or> s = Inr ()"
    using b sleep_fst [of e k 5 w1] by (auto split: if_splits)
  show ?case
    using Cons.prems Cons.IH [of w1] Cons.IH [of w2] r s
    by (auto simp: a b split: sum.splits option.splits if_splits)
qed

section \<open>\<open>update_ddns\<close>\<close>



section \<open>\<open>get_public_ip\<close>\<close>

lemma loop_trace_prefix:
  "\<exists>evs. trace (snd (get_public_ip_loop e ks w)) = trace w @ evs
         \<and> prefix evs (concat (map attempt_events ks))"
proof (induction ks arbitrary: w)
  case Nil
  then show ?case by simp
next
  case (Cons k ks)
  obtain r w1 where a: "try_get e k w = (r, w1)" by (cases "try_get e k w")
  have t1: "trace w1 = trace w @ [EvGet]"
    using a try_get_trace [of e k w] by simp
  obtain s w2 where b: "sleep e k 5 w1 = (s, w2)" by (cases "sleep e k 5 w1")
  have t2: "trace w2 = trace w @ [EvGet, EvSleep 5]"
    using b sleep_snd [of e k 5 w1] t1 by simp
  from Cons.IH [of w1] obtain evs1 where
    h1: "trace (snd (get_public_ip_loop e ks w1)) = trace w1 @ evs1"
        "prefix evs1 (concat (map attempt_events ks))" by blast
  from Cons.IH [of w2] obtain evs2 where
    h2: "trace (snd (get_public_ip_loop e ks w2)) = trace w2 @ evs2"
        "prefix evs2 (concat (map attempt_events ks))" by blast
  have stop: "prefix [EvGet] (concat (map attempt_events (k # ks)))"
    by (simp add: attempt_events_def)
  have stop2: "k < 2 \<Longrightarrow> prefix [EvGet, EvSleep 5] (concat (map attempt_events (k # ks)))"
    by (simp add: attempt_events_def)
  have go1: "\<not> k < 2 \<Longrightarrow> prefix ([EvGet] @ evs1) (concat (map attempt_events (k # ks)))"
    using h1(2) by (simp add: attempt_events_def)
  have go2: "k < 2 \<Longrightarrow> prefix ([EvGet, EvSleep 5] @ evs2) (concat (map attempt_events (k # ks)))"
    using h2(2) by (simp add: attempt_events_def)
  consider (raise) x where "r = Inl x" | (found) ip where "r = Inr (Some ip)"
    | (last) "r = Inr None" "\<not> k < 2"
    | (intr) x where "r = Inr None" "k < 2" "s = Inl x"
    | (again) u where "r = Inr None" "k < 2" "s = Inr u"
    by (cases r; cases s) (auto split: option.splits)
  then show ?case
  proof cases
    case raise
    then show ?thesis using stop t1 by (intro exI [of _ "[EvGet]"]) (simp add: a)
  next
    case found
    then show ?thesis using stop t1 by (intro exI [of _ "[EvGet]"]) (simp add: a)
  next
    case last
    then show ?thesis
      using go1 h1(1) t1 by (intro exI [of _ "[EvGet] @ evs1"]) (simp add: a)
  next
    case intr
    then show ?thesis
      using stop2 t2 by (intro exI [of _ "[EvGet, EvSleep 5]"]) (simp add: a b)
  next
    case again
    then show ?thesis
      using go2 h2(1) t2 by (intro exI [of _ "[EvGet, EvSleep 5] @ evs2"]) (simp add: a b)
  qed
qed

lemma loop_all_fail:
  "(\<forall>k\<in>set ks. attempt_fails (get_reply e k) \<and> (k < 2 \<longrightarrow> \<not> sleep_interrupted e k)) \<Longrightarrow>
   fst (get_public_ip_loop e ks w) = Inr None
   \<and> trace (snd (get_public_ip_loop e ks w)) = trace w @ concat (map attempt_events ks)"
proof (induction ks arbitrary: w)
  case Nil
  then show ?case by simp
next
  case (Cons k ks)
  obtain r w1 where a: "try_get e k w = (r, w1)" by (cases "try_get e k w")
  have t1: "trace w1 = trace w @ [EvGet]"
    using a try_get_trace [of e k w] by simp
  have "attempt_fails (get_reply e k)" using Cons.prems by simp
  then have r: "r = Inr None"
    using a try_get_result [of e k w]
    by (auto simp: attempt_fails_def split: net_outcome.splits)
  obtain s w2 where b: "sleep e k 5 w1 = (s, w2)" by (cases "sleep e k 5 w1")
  have t2: "trace w2 = trace w @ [EvGet, EvSleep 5]"
    using b sleep_snd [of e k 5 w1] t1 by simp
  have s: "k < 2 \<Longrightarrow> s = Inr ()"
    using b sleep_fst [of e k 5 w1] Cons.prems by simp
  have rest: "\<forall>k\<in>set ks. attempt_fails (get_reply e k) \<and> (k < 2 \<longrightarrow> \<not> sleep_interrupted e k)"
    using Cons.prems by simp
  show ?case
  proof (cases "k < 2")
    case True
    then show ?thesis
      using Cons.IH [OF rest, of w2] s t2 by (simp add: a b r attempt_events_def)
  next
    case False
    then show ?thesis
      using Cons.IH [OF rest, of w1] t1 by (simp add: a r attempt_events_def)
  qed
qed


lemma range3: "[0..<3] = [0, 1, 2]"
  by (simp add: upt_rec)





section \<open>The whole run\<close>

lemma rotate_log_last_ip_file [simp]: "last_ip_file (rotate_log e w) = last_ip_file w"
  by (simp add: rotate_log_def split: option.splits)

lemma rotate_log_trace [simp]: "trace (rotate_log e w) = trace w"
  by (simp add: rotate_log_def split: option.splits)

lemma validate_ip_empty: "\<not> validate_ip []"
  by code_simp

lemma loop_some:
  "fst (get_public_ip_loop e ks w) = Inr (Some ip) \<Longrightarrow> validate_ip ip \<and> strip ip = ip"
proof (induction ks arbitrary: w)
  case Nil
  then show ?case by simp
next
  case (Cons k ks)
  obtain r w1 where a: "try_get e k w = (r, w1)" by (cases "try_get e k w")
  have r: "r = Inr (Some ip) \<Longrightarrow> validate_ip ip \<and> strip ip = ip"
    using a try_get_result [of e k w]
    by (auto simp: strip_idem split: net_outcome.splits if_splits)
  obtain s w2 where b: "sleep e k 5 w1 = (s, w2)" by (cases "sleep e k 5 w1")
  show ?case
    using Cons.prems Cons.IH [of w1] Cons.IH [of w2] r
    by (auto simp: a b split: sum.splits option.splits if_splits)
qed

lemma loop_no_post:
  "filter is_post (trace (snd (get_public_ip_loop e ks w))) = filter is_post (trace w)"
proof -
  obtain evs where e: "trace (snd (get_public_ip_loop e ks w)) = trace w @ evs"
    "prefix evs (concat (map attempt_events ks))"
    using loop_trace_prefix [of e ks w] by blast
  have "\<forall>ev\<in>set (concat (map attempt_events ks)). \<not> is_post ev"
    by (auto simp: attempt_events_def split: if_splits)
  then have "\<forall>ev\<in>set evs. \<not> is_post ev"
    using set_mono_prefix [OF e(2)] by blast
  then have "filter is_post evs = []"
    by (simp add: filter_empty_conv)
  then show ?thesis using e(1) by simp
qed

lemma noop_path:
  assumes "fst (get_public_ip e w) = Inr (Some ip)"
    and "last_ip_file w = Some c" and "strip c = ip"
  shows "fst (script e w) = Exit 0
         \<and> filter is_post (trace (snd (script e w))) = filter is_post (trace w)
         \<and> last_ip_file (snd (script e w)) = Some c"
proof -
  define w1 where "w1 = log_message e ''INFO'' ''Starting VolaryDDNS update process'' w"
  define w2 where "w2 = rotate_log e w1"
  obtain r w3 where g: "get_public_ip e w2 = (r, w3)" by (cases "get_public_ip e w2")
  have r: "r = Inr (Some ip)"
    using g assms(1) loop_result_indep [of e "[0..<3]" w2 w] by (simp add: get_public_ip_def)
  have ip: "ip \<noteq> []"
    using loop_some [of e "[0..<3]" w ip] assms(1) validate_ip_empty
    by (auto simp: get_public_ip_def)
  have "last_ip_file w3 = last_ip_file w2"
    using g loop_frame [of e "[0..<3]" w2] by (simp add: get_public_ip_def)
  then have l3: "last_ip_file w3 = Some c"
    using assms(2) by (simp add: w2_def w1_def)
  have "filter is_post (trace w3) = filter is_post (trace w2)"
    using g loop_no_post [of e "[0..<3]" w2] by (simp add: get_public_ip_def)
  then have t3: "filter is_post (trace w3) = filter is_post (trace w)"
    by (simp add: w2_def w1_def)
  have u: "ip_unchanged ip w3"
    using l3 assms(3) by (simp add: ip_unchanged_def)
  have "script e w =
          (Exit 0,
           log_message e ''INFO'' (''IP address unchanged ('' @ ip @ ''), skipping update'') w3)"
    using g r ip u
    by (simp add: script_def main_def compare_and_update_def Let_def
        w1_def [symmetric] w2_def [symmetric])
  then show ?thesis using l3 t3 by simp
qed

text \<open>
  C3. When the last-known-IP file exists and holds the IP that \<open>get_public_ip\<close> has just
  resolved, the run sends no POST and ends with exit code 0. What \<open>get_public_ip\<close>
  returns depends on the environment only, not on the state it starts in
  (\<open>loop_result_indep\<close>), so the first hypothesis names the IP the run resolves.
\<close>

theorem unchanged_ip_is_noop:
  assumes "fst (get_public_ip e w) = Inr (Some ip)" and "last_ip_file w = Some ip"
  shows "fst (script e w) = Exit 0
         \<and> filter is_post (trace (snd (script e w))) = filter is_post (trace w)"
proof -
  have "strip ip = ip"
    using loop_some [of e "[0..<3]" w ip] assms(1) by (simp add: get_public_ip_def)
  then show ?thesis
    using noop_path [OF assms(1) assms(2)] by simp
qed

theorem unchanged_ip_is_noop_witness:
  "fst (script env_ok w_same) = Exit 0
   \<and> filter is_post (trace (snd (script env_ok w_same))) = []"
proof -
  have a: "fst (get_public_ip env_ok w_same) = Inr (Some ''198.51.100.9'')"
    by code_simp
  have b: "last_ip_file w_same = Some ''198.51.100.9''"
    by (simp add: w_same_def)
  show ?thesis
    using unchanged_ip_is_noop [OF a b] by (simp add: w_same_def w_fresh_def)
qed

text \<open>
  C10. The content of the last-known-IP file is stripped before it is compared: when the
  file's content equals the resolved IP after stripping surrounding whitespace, the run
  sends no POST and ends with exit code 0.
\<close>

theorem cached_ip_is_stripped:
  assumes "fst (get_public_ip e w) = Inr (Some ip)"
    and "last_ip_file w = Some c" and "strip c = ip"
  shows "fst (script e w) = Exit 0
         \<and> filter is_post (trace (snd (script e w))) = filter is_post (trace w)"
  using noop_path [OF assms] by simp


theorem cached_ip_is_stripped_witness:
  "fst (script env_ok w_same_nl) = Exit 0
   \<and> filter is_post (trace (snd (script env_ok w_same_nl))) = []"
proof -
  have a: "fst (get_public_ip env_ok w_same_nl) = Inr (Some ''198.51.100.9'')"
    by code_simp
  have b: "last_ip_file w_same_nl = Some ''198.51.100.9\<newline>''"
    by (simp add: w_same_nl_def)
  have c: "strip ''198.51.100.9\<newline>'' = ''198.51.100.9''"
    by code_simp
  show ?thesis
    using cached_ip_is_stripped [OF a b c] by (simp add: w_same_nl_def w_fresh_def)
qed

lemma log_message_ends:
  "\<exists>c. log_file (log_message e level message w) =
         Some (c @ log_entry (now e (clock w)) level message)"
proof (cases "log_file w")
  case None
  then have "log_file (log_message e level message w) =
      Some ([] @ log_entry (now e (clock w)) level message)"
    by (simp add: log_message_log_file append_file_def)
  then show ?thesis by blast
next
  case (Some c)
  then show ?thesis by (simp add: log_message_log_file append_file_def)
qed

lemma error_logged_log_message: "error_logged message (log_message e ''ERROR'' message w)"
  unfolding error_logged_def using log_message_ends [of e "''ERROR''" message w] by blast

lemma env_down_fails: "\<forall>k<3. attempt_fails (get_reply env_down k)"
proof -
  have "attempt_fails (get_reply env_down 0)" by code_simp
  moreover have "attempt_fails (get_reply env_down 1)" by code_simp
  moreover have "attempt_fails (get_reply env_down 2)" by code_simp
  ultimately show ?thesis
    by (auto simp: numeral_3_eq_3 numeral_2_eq_2 less_Suc_eq)
qed

lemma env_down_none: "fst (get_public_ip env_down w) = Inr None"
proof -
  have s: "\<forall>k. \<not> sleep_interrupted env_down k"
    by (simp add: env_down_def env_ok_def)
  have "\<forall>k\<in>set [0, 1, 2::nat].
      attempt_fails (get_reply env_down k) \<and> (k < 2 \<longrightarrow> \<not> sleep_interrupted env_down k)"
    using env_down_fails s by simp
  from loop_all_fail [OF this, of w] show ?thesis
    by (simp only: get_public_ip_def range3)
qed

lemma env_interrupted_raises: "fst (get_public_ip env_interrupted w) = Inl KeyboardInterrupt"
  by (simp add: get_public_ip_def range3 try_get_def env_interrupted_def env_ok_def)

section \<open>Log rotation\<close>

lemma log_extends_refl: "log_extends w w"
  by (simp add: log_extends_def)

lemma log_extends_trans: "log_extends w w' \<Longrightarrow> log_extends w' w'' \<Longrightarrow> log_extends w w''"
  unfolding log_extends_def by (metis append.assoc)

lemma log_extends_log_message: "log_extends w (log_message e level message w)"
  by (simp add: log_extends_def log_message_log_file append_file_def)

lemma log_extends_after_log_message:
  "log_extends w w' \<Longrightarrow> log_extends w (log_message e level message w')"
  using log_extends_trans log_extends_log_message by blast

lemma log_extends_loop: "log_extends w (snd (get_public_ip_loop e ks w))"
  unfolding log_extends_def using loop_frame [of e ks w] loop_grows [of w _ e ks] by blast

lemma log_extends_update_ddns: "log_extends w (snd (update_ddns e ip w))"
proof -
  have t: "log_extends w (w\<lparr>trace := trace w @ [EvPost (API_URL e) (TOKEN e) ip]\<rparr>)"
    by (simp add: log_extends_def)
  have l: "\<And>w'. log_extends w w' \<Longrightarrow> log_extends w (w'\<lparr>last_ip_file := Some ip\<rparr>)"
    by (simp add: log_extends_def)
  show ?thesis
    by (auto simp: update_ddns_def Let_def split: net_outcome.splits
        intro!: log_extends_after_log_message t l)
qed

lemma log_extends_update_and_exit: "log_extends w (snd (update_and_exit e ip w))"
  using log_extends_update_ddns [of w e ip]
  by (auto simp: update_and_exit_def split: prod.splits sum.splits
      intro!: log_extends_after_log_message)

lemma log_extends_compare_and_update: "log_extends w (snd (compare_and_update e ip_opt w))"
  using log_extends_update_and_exit [of w e]
  by (auto simp: compare_and_update_def split: option.splits
      intro!: log_extends_log_message)

lemma getsize_append: "getsize (a @ b) = getsize a + getsize b"
  by (simp add: getsize_def)

lemma rotation_run:
  assumes "log_file w = Some c" and "getsize c > MAX_LOG_SIZE"
  shows "log_old (snd (script e w)) =
           Some (c @ log_entry (now e (clock w)) ''INFO'' start_message)
         \<and> (\<exists>rest. log_file (snd (script e w)) =
               Some (log_entry (now e (Suc (clock w))) ''INFO'' rotation_notice @ rest))"
proof -
  define w1 where "w1 = log_message e ''INFO'' ''Starting VolaryDDNS update process'' w"
  define w2 where "w2 = rotate_log e w1"
  define c1 where "c1 = c @ log_entry (now e (clock w)) ''INFO'' start_message"
  have f1: "log_file w1 = Some c1"
    using assms(1) by (simp add: w1_def c1_def start_message_def log_message_log_file append_file_def)
  have "getsize c1 > MAX_LOG_SIZE"
    using assms(2) by (simp add: c1_def getsize_append)
  then have w2: "w2 = log_message e ''INFO'' ''Log file rotated due to size limit''
                   (w1\<lparr>log_old := Some c1, log_file := None\<rparr>)"
    using f1 by (simp add: w2_def rotate_log_def)
  have o2: "log_old w2 = Some c1"
    by (simp add: w2)
  have "clock w1 = Suc (clock w)"
    by (simp add: w1_def)
  then have f2: "log_file w2 = Some (log_entry (now e (Suc (clock w))) ''INFO'' rotation_notice)"
    by (simp add: w2 log_message_log_file append_file_def rotation_notice_def)
  obtain r w3 where g: "get_public_ip e w2 = (r, w3)" by (cases "get_public_ip e w2")
  have e3: "log_extends w2 w3"
    using g log_extends_loop [of w2 e "[0..<3]"] by (simp add: get_public_ip_def)
  have m: "main e w = (case r of Inl x \<Rightarrow> (Inl x, w3) | Inr ip_opt \<Rightarrow> compare_and_update e ip_opt w3)"
    using g by (simp add: main_def Let_def w1_def [symmetric] w2_def [symmetric])
  have "log_extends w3 (snd (main e w))"
    using log_extends_compare_and_update [of w3 e]
    by (cases r) (simp_all add: m log_extends_refl)
  then have e4: "log_extends w2 (snd (main e w))"
    using e3 log_extends_trans by blast
  have "log_extends (snd (main e w)) (snd (script e w))"
    by (auto simp: script_def log_extends_refl log_extends_log_message
        split: prod.splits sum.splits exn.splits)
  then have "log_extends w2 (snd (script e w))"
    using e4 log_extends_trans by blast
  then show ?thesis
    using o2 f2 by (simp add: log_extends_def c1_def)
qed

lemma big_log_size: "getsize big_log > MAX_LOG_SIZE"
  by (simp add: getsize_def big_log_def utf8_len_def MAX_LOG_SIZE_def sum_list_replicate)

text \<open>
  C7, as the code has it. When the script starts with a log file larger than 1,048,576
  bytes, it first appends its start entry to that file, then renames the file, start entry
  included, to the \<open>.old\<close> name before any further entry is written; the new log file
  begins with the rotation notice.
\<close>

theorem rotation_follows_start_entry:
  assumes "log_file w = Some c" and "getsize c > MAX_LOG_SIZE"
  shows "log_old (snd (script e w)) =
           Some (c @ log_entry (now e (clock w)) ''INFO'' start_message)
         \<and> (\<exists>rest. log_file (snd (script e w)) =
               Some (log_entry (now e (Suc (clock w))) ''INFO'' rotation_notice @ rest))"
  using rotation_run [OF assms] .

theorem rotation_follows_start_entry_witness:
  "log_old (snd (script env_ok w_big)) =
     Some (big_log @ log_entry (ts0 0) ''INFO'' start_message)
   \<and> (\<exists>rest. log_file (snd (script env_ok w_big)) =
         Some (log_entry (ts0 (Suc 0)) ''INFO'' rotation_notice @ rest))"
proof -
  have a: "log_file w_big = Some big_log"
    by (simp add: w_big_def)
  have b: "now env_ok (clock w_big) = ts0 0" "now env_ok (Suc (clock w_big)) = ts0 (Suc 0)"
    by (simp_all add: env_ok_def w_big_def w_fresh_def)
  show ?thesis
    using rotation_follows_start_entry [OF a big_log_size, of env_ok] by (simp only: b)
qed

text \<open>
  C7 as stated says the rename comes before any entry of the run. On a log of 1,048,577
  bytes the old log is not the file the run was started with: it ends with the start entry
  of this run.
\<close>

theorem rotation_before_any_entry_counterexample:
  "log_old (snd (script env_ok w_big)) =
     Some (big_log @ log_entry (ts0 0) ''INFO'' start_message)
   \<and> log_old (snd (script env_ok w_big)) \<noteq> log_file w_big"
proof -
  have a: "log_file w_big = Some big_log"
    by (simp add: w_big_def)
  have b: "now env_ok (clock w_big) = ts0 0"
    by (simp add: env_ok_def w_big_def w_fresh_def)
  have c: "log_old (snd (script env_ok w_big)) =
      Some (big_log @ log_entry (ts0 0) ''INFO'' start_message)"
    using rotation_run [OF a big_log_size, of env_ok] by (simp only: b)
  have "log_entry (ts0 0) ''INFO'' start_message \<noteq> []"
    by (simp add: log_entry_def)
  then show ?thesis
    using a c by simp
qed

section \<open>\<open>log_message\<close>\<close>

lemma log_entry_last: "last (log_entry ts level message) = CHR ''n''"
  by (simp add: log_entry_def)

lemma log_entry_no_final_newline:
  "log_entry ts level message \<noteq> body @ [CHR ''\<newline>'']"
proof
  assume "log_entry ts level message = body @ [CHR ''\<newline>'']"
  then have "last (log_entry ts level message) = CHR ''\<newline>''"
    by simp
  then show False
    by (simp add: log_entry_last)
qed

text \<open>
  C8. Every log entry should be a line that ends in a newline. The f-string of
  \<open>log_message\<close> ends in \<open>\\n\<close>, which Python reads as a backslash and the letter n:
  the entry written for the start message ends in these two characters, and it contains
  no newline character at all.
\<close>

theorem log_entry_ends_in_backslash_n:
  "log_file (log_message env_ok ''INFO'' start_message w_fresh) =
     Some (''[2025-06-01 12:00:00] [INFO] Starting VolaryDDNS update process''
           @ [CHR 0x5C, CHR ''n''])
   \<and> CHR ''\<newline>'' \<notin> set (log_entry (ts0 0) ''INFO'' start_message)"
proof -
  have t: "ts0 0 = ''2025-06-01 12:00:00''"
    by code_simp
  have "log_file (log_message env_ok ''INFO'' start_message w_fresh) =
          Some (log_entry (ts0 0) ''INFO'' start_message)"
    by (simp add: log_message_log_file append_file_def env_ok_def w_fresh_def)
  then show ?thesis
    by (simp add: t log_entry_def start_message_def backslash_def)
qed

section \<open>The error message of a failed update\<close>

text \<open>
  C9, as the code has it. When the POST is answered and the answer is no success, the log
  gets the debug entry with the body and then the error entry with
  \<open>API request failed: \<close> and the message. The message is the \<open>error\<close> field of the
  body when the body parses to a JSON object and that field has a value Python counts as
  true; otherwise the \<open>message\<close> field under the same condition; otherwise the raw body.
\<close>

theorem update_ddns_failure_message:
  assumes "post_reply e = Response r"
    and "\<not> (response_ok r \<and> success_body (resp_text r))"
  shows "log_file (snd (update_ddns e ip w)) =
           append_file
             (append_file (log_file w)
                (log_entry (now e (clock w)) ''DEBUG'' (''API Response: '' @ resp_text r)))
             (log_entry (now e (Suc (clock w))) ''ERROR''
                (''API request failed: '' @ py_str (error_msg r)))
         \<and> (\<forall>v. usable_field r ''error'' = Some v \<longrightarrow> error_msg r = v)
         \<and> (\<forall>v. usable_field r ''error'' = None \<and> usable_field r ''message'' = Some v \<longrightarrow>
                error_msg r = v)
         \<and> (usable_field r ''error'' = None \<and> usable_field r ''message'' = None \<longrightarrow>
                error_msg r = PStr (resp_text r))"
proof (intro conjI allI impI)
  show "log_file (snd (update_ddns e ip w)) =
           append_file
             (append_file (log_file w)
                (log_entry (now e (clock w)) ''DEBUG'' (''API Response: '' @ resp_text r)))
             (log_entry (now e (Suc (clock w))) ''ERROR''
                (''API request failed: '' @ py_str (error_msg r)))"
    using assms by (auto simp: update_ddns_def Let_def log_message_log_file)
next
  fix v assume "usable_field r ''error'' = Some v"
  then show "error_msg r = v"
    by (auto simp: usable_field_def error_msg_def py_or_def dict_get_def
        split: json_outcome.splits option.splits if_splits)
next
  fix v assume "usable_field r ''error'' = None \<and> usable_field r ''message'' = Some v"
  then show "error_msg r = v"
    by (auto simp: usable_field_def error_msg_def py_or_def dict_get_def
        split: json_outcome.splits option.splits if_splits)
next
  assume "usable_field r ''error'' = None \<and> usable_field r ''message'' = None"
  then show "error_msg r = PStr (resp_text r)"
    by (auto simp: usable_field_def error_msg_def py_or_def dict_get_def
        split: json_outcome.splits option.splits if_splits)
qed

lemma resp_empty_error_rejected:
  "\<not> (response_ok resp_empty_error \<and> success_body (resp_text resp_empty_error))"
  by (simp add: response_ok_def resp_empty_error_def)

theorem update_ddns_failure_message_witness:
  \<open>log_file (snd (update_ddns env_rejected ''198.51.100.9'' w_fresh)) =
     Some (log_entry (ts0 0) ''DEBUG'' ''API Response: {"error": ""}''
           @ log_entry (ts0 (Suc 0)) ''ERROR'' ''API request failed: {"error": ""}'')\<close>
proof -
  have a: "post_reply env_rejected = Response resp_empty_error"
    by (simp add: env_rejected_def)
  have b: "usable_field resp_empty_error ''error'' = None
           \<and> usable_field resp_empty_error ''message'' = None"
    by (simp add: usable_field_def resp_empty_error_def)
  have "error_msg resp_empty_error = PStr (resp_text resp_empty_error)"
    using update_ddns_failure_message [OF a resp_empty_error_rejected] b by blast
  then have c: "py_str (error_msg resp_empty_error) = resp_text resp_empty_error"
    by simp
  have d: "now env_rejected (clock w_fresh) = ts0 0"
    "now env_rejected (Suc (clock w_fresh)) = ts0 (Suc 0)"
    by (simp_all add: env_rejected_def env_ok_def w_fresh_def)
  have "log_file (snd (update_ddns env_rejected ''198.51.100.9'' w_fresh)) =
           append_file
             (append_file (log_file w_fresh)
                (log_entry (ts0 0) ''DEBUG''
                   (''API Response: '' @ resp_text resp_empty_error)))
             (log_entry (ts0 (Suc 0)) ''ERROR''
                (''API request failed: '' @ resp_text resp_empty_error))"
    using update_ddns_failure_message [OF a resp_empty_error_rejected, of "''198.51.100.9''" w_fresh]
    by (simp only: d c)
  then show ?thesis
    by (simp add: append_file_def w_fresh_def resp_empty_error_def)
qed

text \<open>
  C9 as stated lets the raw body be logged only when JSON parsing fails or neither field is
  present. For the body \<open>{"error": ""}\<close> with status 400 parsing succeeds and the
  \<open>error\<close> field is present, with the empty string as its value; the update fails, and
  the message that is logged is the raw body, not that value.
\<close>

theorem error_field_present_counterexample:
  \<open>\<not> fields_absent resp_empty_error
   \<and> dict_get [''error'' \<mapsto> PStr ''''] ''error'' = PStr ''''
   \<and> error_msg resp_empty_error = PStr ''{"error": ""}''
   \<and> py_str (error_msg resp_empty_error) \<noteq> py_str (PStr '''')
   \<and> fst (update_ddns env_rejected ''198.51.100.9'' w_fresh) = Inr False\<close>
  by (simp add: fields_absent_def resp_empty_error_def error_msg_def py_or_def dict_get_def
      update_ddns_def env_rejected_def response_ok_def)

section \<open>Runs without file faults\<close>

text \<open>
  When no file operation fails, the functions with faults are the functions of the first
  part.
\<close>

lemma log_message_io_ok:
  "log_and_reads_ok f \<Longrightarrow>
   log_message_io f e level message w = (Inr (), log_message e level message w)"
  by (simp add: log_and_reads_ok_def log_message_io_def)

lemma try_get_io_ok: "log_and_reads_ok f \<Longrightarrow> try_get_io f e k w = try_get e k w"
  by (simp add: try_get_io_def try_get_def log_message_io_ok andthen_def except_Exception_def
      Let_def split: net_outcome.splits)

lemma loop_io_ok:
  "log_and_reads_ok f \<Longrightarrow> get_public_ip_loop_io f e ks w = get_public_ip_loop e ks w"
  by (induction ks arbitrary: w)
    (simp_all add: try_get_io_ok split: prod.splits sum.splits option.splits)

lemma get_public_ip_io_ok:
  "log_and_reads_ok f \<Longrightarrow> get_public_ip_io f e w = get_public_ip e w"
  by (simp add: get_public_ip_io_def get_public_ip_def loop_io_ok)

lemma rotate_log_io_ok:
  "log_and_reads_ok f \<Longrightarrow> rotate_log_io f e w = (Inr (), rotate_log e w)"
  by (simp add: rotate_log_io_def rotate_log_def log_message_io_ok split: option.splits)
    (simp add: log_and_reads_ok_def)

lemma update_ddns_io_ok: "no_faults f \<Longrightarrow> update_ddns_io f e ip w = update_ddns e ip w"
  by (simp add: update_ddns_io_def update_ddns_def log_message_io_ok andthen_def
      except_Exception_def write_last_ip_io_def no_faults_def Let_def split: net_outcome.splits)

lemma update_and_exit_io_ok:
  "no_faults f \<Longrightarrow> update_and_exit_io f e ip w = update_and_exit e ip w"
  by (simp add: update_and_exit_io_def update_and_exit_def update_ddns_io_ok log_message_io_ok
      andthen_def exit_with_def no_faults_def split: prod.splits sum.splits)

lemma read_last_ip_io_ok:
  "log_and_reads_ok f \<Longrightarrow> read_last_ip_io f w = (Inr (map_option strip (last_ip_file w)), w)"
  by (simp add: read_last_ip_io_def log_and_reads_ok_def split: option.splits)

lemma compare_and_update_io_ok:
  "no_faults f \<Longrightarrow> compare_and_update_io f e ip_opt w = compare_and_update e ip_opt w"
  by (auto simp: compare_and_update_io_def compare_and_update_def update_and_exit_io_ok
      log_message_io_ok andthen_def exit_with_def read_last_ip_io_ok ip_unchanged_def
      no_faults_def split: option.splits)

lemma main_io_ok: "no_faults f \<Longrightarrow> main_io f e w = main e w"
  by (simp add: main_io_def main_def log_message_io_ok makedirs_io_def rotate_log_io_ok
      get_public_ip_io_ok compare_and_update_io_ok andthen_def no_faults_def Let_def
      split: prod.splits sum.splits)
    (simp add: log_and_reads_ok_def)

lemma script_io_ok: "no_faults f \<Longrightarrow> script_io f e w = script e w"
  by (simp add: script_io_def script_def main_io_ok log_message_io_ok no_faults_def
      split: prod.splits sum.splits exn.splits)

lemma no_faults_none: "no_faults faults_none"
  by (simp add: no_faults_def log_and_reads_ok_def faults_none_def)

section \<open>\<open>update_ddns\<close> with file faults\<close>

text \<open>
  C2, as the code has it. \<open>update_ddns ip\<close> returns \<open>True\<close> if and only if the POST
  was answered by a response whose status is no error status and whose lower-cased body
  contains \<open>success\<close>, \<open>updated\<close> or \<open>ok\<close>, and the two log writes and the write
  of the last-known-IP file that follow inside the \<open>try\<close> succeed; and when it returns
  \<open>True\<close>, the last-known-IP file holds exactly \<open>ip\<close>.
\<close>

theorem update_ddns_io_success_iff:
  "(fst (update_ddns_io f e ip w) = Inr True \<longleftrightarrow>
      (\<exists>r. post_reply e = Response r \<and> response_ok r \<and>
           (contains ''success'' (lower (resp_text r)) \<or>
            contains ''updated'' (lower (resp_text r)) \<or>
            contains ''ok'' (lower (resp_text r)))
           \<and> log_fault f (clock w) = None \<and> log_fault f (Suc (clock w)) = None
           \<and> cache_write_fault f = WriteOk))
   \<and> (fst (update_ddns_io f e ip w) = Inr True \<longrightarrow>
        last_ip_file (snd (update_ddns_io f e ip w)) = Some ip)"
  by (auto simp: update_ddns_io_def success_body_def Let_def andthen_def except_Exception_def
      log_message_io_def write_last_ip_io_def
      split: net_outcome.splits option.splits write_fault.splits)

theorem update_ddns_io_success_iff_witness:
  "fst (update_ddns_io faults_none env_ok ''198.51.100.9'' w_fresh) = Inr True
   \<and> last_ip_file (snd (update_ddns_io faults_none env_ok ''198.51.100.9'' w_fresh)) =
       Some ''198.51.100.9''"
proof -
  have "post_reply env_ok = Response resp_updated"
    by (simp add: env_ok_def)
  moreover have "response_ok resp_updated \<and> contains ''ok'' (lower (resp_text resp_updated))"
    by code_simp
  moreover have "log_fault faults_none (clock w_fresh) = None
      \<and> log_fault faults_none (Suc (clock w_fresh)) = None
      \<and> cache_write_fault faults_none = WriteOk"
    by (simp add: faults_none_def)
  ultimately show ?thesis
    using update_ddns_io_success_iff [of faults_none env_ok "''198.51.100.9''" w_fresh] by blast
qed

text \<open>
  C2 as stated makes the answer alone decide. With an accepted answer (status 200, body
  \<open>Updated OK\<close>) and a last-known-IP file that cannot be opened for writing, the
  \<open>OSError\<close> of the \<open>open\<close> is caught by \<open>except Exception\<close> and \<open>update_ddns\<close>
  returns \<open>False\<close>.
\<close>

theorem accepted_response_cache_unwritable_counterexample:
  "post_reply env_ok = Response resp_updated
   \<and> response_ok resp_updated
   \<and> contains ''ok'' (lower (resp_text resp_updated))
   \<and> fst (update_ddns_io faults_cache_readonly env_ok ''198.51.100.9'' w_fresh) = Inr False"
proof -
  have a: "post_reply env_ok = Response resp_updated"
    by (simp add: env_ok_def)
  have b: "response_ok resp_updated \<and> contains ''ok'' (lower (resp_text resp_updated))"
    by code_simp
  then have c: "response_ok resp_updated \<and> success_body (resp_text resp_updated)"
    by (simp add: success_body_def)
  have "fst (update_ddns_io faults_cache_readonly env_ok ''198.51.100.9'' w_fresh) = Inr False"
    using c
    by (simp add: update_ddns_io_def a andthen_def except_Exception_def log_message_io_def
        write_last_ip_io_def faults_cache_readonly_def faults_none_def Let_def)
  then show ?thesis
    using a b by simp
qed

section \<open>The whole run with file faults\<close>

lemma update_ddns_io_result:
  assumes "log_and_reads_ok f"
  shows "fst (update_ddns_io f e ip w) =
     (case post_reply e of
        Interrupted \<Rightarrow> Inl KeyboardInterrupt
      | TransportError d \<Rightarrow> Inr False
      | Response r \<Rightarrow>
          Inr (response_ok r \<and> success_body (resp_text r) \<and> cache_write_fault f = WriteOk))"
  by (auto simp: update_ddns_io_def log_message_io_ok [OF assms] andthen_def
      except_Exception_def write_last_ip_io_def Let_def
      split: net_outcome.splits write_fault.splits)

lemma update_and_exit_io_outcome:
  assumes "log_and_reads_ok f"
  shows "update_and_exit_io f e ip w =
     (case fst (update_ddns_io f e ip w) of
        Inl x \<Rightarrow> (Inl x, snd (update_ddns_io f e ip w))
      | Inr ok \<Rightarrow>
          if ok
          then (Inl (SystemExit 0),
                log_message e ''INFO'' (''IP successfully updated to '' @ ip)
                  (snd (update_ddns_io f e ip w)))
          else (Inl (SystemExit 1),
                log_message e ''ERROR'' ''Failed to update DDNS''
                  (snd (update_ddns_io f e ip w))))"
  by (cases "update_ddns_io f e ip w")
    (simp add: update_and_exit_io_def andthen_def exit_with_def log_message_io_ok [OF assms]
      split: sum.splits)

lemma compare_and_update_io_outcome:
  assumes "log_and_reads_ok f"
  shows "compare_and_update_io f e ip_opt w =
     (case ip_opt of
        None \<Rightarrow>
          (Inl (SystemExit 1),
           log_message e ''ERROR'' ''Failed to get valid public IP after 3 attempts'' w)
      | Some ip \<Rightarrow>
          if ip = []
          then (Inl (SystemExit 1),
                log_message e ''ERROR'' ''Failed to get valid public IP after 3 attempts'' w)
          else if ip_unchanged ip w
          then (Inl (SystemExit 0),
                log_message e ''INFO''
                  (''IP address unchanged ('' @ ip @ ''), skipping update'') w)
          else update_and_exit_io f e ip w)"
  by (auto simp: compare_and_update_io_def andthen_def exit_with_def
      log_message_io_ok [OF assms] read_last_ip_io_ok [OF assms] ip_unchanged_def
      split: option.splits)

lemma main_io_outcome:
  assumes "log_and_reads_ok f"
  shows "\<exists>w3. last_ip_file w3 = last_ip_file w
           \<and> main_io f e w =
               (case fst (get_public_ip_io f e w) of
                  Inl x \<Rightarrow> (Inl x, w3)
                | Inr ip_opt \<Rightarrow> compare_and_update_io f e ip_opt w3)"
proof -
  define w2 where
    "w2 = rotate_log e (log_message e ''INFO'' ''Starting VolaryDDNS update process'' w)"
  obtain r w3 where g: "get_public_ip e w2 = (r, w3)" by (cases "get_public_ip e w2")
  have r: "fst (get_public_ip_io f e w) = r"
    using g loop_result_indep [of e "[0..<3]" w2 w]
    by (simp add: get_public_ip_io_ok [OF assms] get_public_ip_def)
  have "last_ip_file w3 = last_ip_file w2"
    using g loop_frame [of e "[0..<3]" w2] by (simp add: get_public_ip_def)
  then have l: "last_ip_file w3 = last_ip_file w"
    by (simp add: w2_def)
  have m: "makedirs_fault f = None"
    using assms by (simp add: log_and_reads_ok_def)
  have "main_io f e w =
          (case r of Inl x \<Rightarrow> (Inl x, w3) | Inr ip_opt \<Rightarrow> compare_and_update_io f e ip_opt w3)"
    by (simp add: main_io_def andthen_def log_message_io_ok [OF assms] makedirs_io_def m
        rotate_log_io_ok [OF assms] get_public_ip_io_ok [OF assms] w2_def [symmetric] g
        split: sum.splits)
  then show ?thesis
    using l r by blast
qed

lemma get_public_ip_io_facts:
  assumes "log_and_reads_ok f"
  shows "(fst (get_public_ip_io f e w) = Inl x \<longrightarrow> x = KeyboardInterrupt)
         \<and> (fst (get_public_ip_io f e w) = Inr (Some ip) \<longrightarrow> ip \<noteq> [])"
  using loop_raises [of e "[0..<3]" w x] loop_some [of e "[0..<3]" w ip] validate_ip_empty
  by (auto simp: get_public_ip_io_ok [OF assms] get_public_ip_def)

text \<open>
  C6, as the code has it. Take a run in which the log file can be written and
  \<open>os.makedirs\<close>, \<open>os.path.getsize\<close>, \<open>os.rename\<close> and the read of the
  last-known-IP file succeed. Then the run ends in an exit code, and the exit code follows
  from what happened: 130 with the entry \<open>Script interrupted\<close> when an interrupt came
  during IP resolution or during the POST; 1 with the entry of the failed resolution when
  no IP was resolved; 0 when the resolved IP is the cached one; and otherwise 0 when the
  update was accepted and the last-known-IP file written, 1 with the entry
  \<open>Failed to update DDNS\<close> when the POST raised a transport error, the answer was no
  success, or the last-known-IP file could not be written.
\<close>

theorem script_io_outcomes:
  assumes "log_and_reads_ok f"
  shows
    "(\<forall>x. fst (get_public_ip_io f e w) = Inl x \<longrightarrow>
        fst (script_io f e w) = Exit 130
        \<and> error_logged ''Script interrupted'' (snd (script_io f e w)))
     \<and> (fst (get_public_ip_io f e w) = Inr None \<longrightarrow>
          fst (script_io f e w) = Exit 1
          \<and> error_logged ''Failed to get valid public IP after 3 attempts''
               (snd (script_io f e w)))
     \<and> (\<forall>ip. fst (get_public_ip_io f e w) = Inr (Some ip) \<and> ip_unchanged ip w \<longrightarrow>
          fst (script_io f e w) = Exit 0)
     \<and> (\<forall>ip. fst (get_public_ip_io f e w) = Inr (Some ip) \<and> \<not> ip_unchanged ip w \<longrightarrow>
          (post_reply e = Interrupted \<longrightarrow>
             fst (script_io f e w) = Exit 130
             \<and> error_logged ''Script interrupted'' (snd (script_io f e w)))
          \<and> (\<forall>d. post_reply e = TransportError d \<longrightarrow>
                fst (script_io f e w) = Exit 1
                \<and> error_logged ''Failed to update DDNS'' (snd (script_io f e w)))
          \<and> (\<forall>r. post_reply e = Response r \<longrightarrow>
                (if response_ok r \<and> success_body (resp_text r)
                    \<and> cache_write_fault f = WriteOk
                 then fst (script_io f e w) = Exit 0
                 else fst (script_io f e w) = Exit 1
                      \<and> error_logged ''Failed to update DDNS'' (snd (script_io f e w)))))
     \<and> (fst (script_io f e w) = Exit 0 \<or> fst (script_io f e w) = Exit 1
          \<or> fst (script_io f e w) = Exit 130)"
proof -
  obtain w3 where l: "last_ip_file w3 = last_ip_file w"
    and m: "main_io f e w =
               (case fst (get_public_ip_io f e w) of
                  Inl x \<Rightarrow> (Inl x, w3)
                | Inr ip_opt \<Rightarrow> compare_and_update_io f e ip_opt w3)"
    using main_io_outcome [OF assms, of w e] by blast
  have u: "\<And>ip. ip_unchanged ip w3 = ip_unchanged ip w"
    by (simp add: ip_unchanged_def l)
  note lm = log_message_io_ok [OF assms]
  note el = error_logged_log_message
  have interrupted: "\<And>x. fst (get_public_ip_io f e w) = Inl x \<Longrightarrow>
        fst (script_io f e w) = Exit 130
        \<and> error_logged ''Script interrupted'' (snd (script_io f e w))"
  proof -
    fix x assume a: "fst (get_public_ip_io f e w) = Inl x"
    then have "x = KeyboardInterrupt"
      using get_public_ip_io_facts [OF assms, of e w x] by blast
    then show "fst (script_io f e w) = Exit 130
        \<and> error_logged ''Script interrupted'' (snd (script_io f e w))"
      using a by (simp add: script_io_def m lm el)
  qed
  have failed: "fst (get_public_ip_io f e w) = Inr None \<Longrightarrow>
          fst (script_io f e w) = Exit 1
          \<and> error_logged ''Failed to get valid public IP after 3 attempts''
               (snd (script_io f e w))"
    by (simp add: script_io_def m compare_and_update_io_outcome [OF assms] el)
  have same: "\<And>ip. fst (get_public_ip_io f e w) = Inr (Some ip) \<Longrightarrow> ip_unchanged ip w \<Longrightarrow>
          fst (script_io f e w) = Exit 0"
  proof -
    fix ip assume a: "fst (get_public_ip_io f e w) = Inr (Some ip)" and b: "ip_unchanged ip w"
    have "ip \<noteq> []"
      using a get_public_ip_io_facts [OF assms, of e w _ ip] by blast
    then show "fst (script_io f e w) = Exit 0"
      using a b by (simp add: script_io_def m compare_and_update_io_outcome [OF assms] u)
  qed
  have update: "\<And>ip. fst (get_public_ip_io f e w) = Inr (Some ip) \<Longrightarrow> \<not> ip_unchanged ip w \<Longrightarrow>
          main_io f e w = update_and_exit_io f e ip w3"
  proof -
    fix ip assume a: "fst (get_public_ip_io f e w) = Inr (Some ip)" and b: "\<not> ip_unchanged ip w"
    have "ip \<noteq> []"
      using a get_public_ip_io_facts [OF assms, of e w _ ip] by blast
    then show "main_io f e w = update_and_exit_io f e ip w3"
      using a b by (simp add: m compare_and_update_io_outcome [OF assms] u)
  qed
  have changed: "\<And>ip. fst (get_public_ip_io f e w) = Inr (Some ip) \<Longrightarrow> \<not> ip_unchanged ip w \<Longrightarrow>
          (post_reply e = Interrupted \<longrightarrow>
             fst (script_io f e w) = Exit 130
             \<and> error_logged ''Script interrupted'' (snd (script_io f e w)))
          \<and> (\<forall>d. post_reply e = TransportError d \<longrightarrow>
                fst (script_io f e w) = Exit 1
                \<and> error_logged ''Failed to update DDNS'' (snd (script_io f e w)))
          \<and> (\<forall>r. post_reply e = Response r \<longrightarrow>
                (if response_ok r \<and> success_body (resp_text r)
                    \<and> cache_write_fault f = WriteOk
                 then fst (script_io f e w) = Exit 0
                 else fst (script_io f e w) = Exit 1
                      \<and> error_logged ''Failed to update DDNS'' (snd (script_io f e w))))"
  proof -
    fix ip assume a: "fst (get_public_ip_io f e w) = Inr (Some ip)" and b: "\<not> ip_unchanged ip w"
    note mu = update [OF a b]
    note ue = update_and_exit_io_outcome [OF assms, of e ip w3]
    note ur = update_ddns_io_result [OF assms, of e ip w3]
    show "(post_reply e = Interrupted \<longrightarrow>
             fst (script_io f e w) = Exit 130
             \<and> error_logged ''Script interrupted'' (snd (script_io f e w)))
          \<and> (\<forall>d. post_reply e = TransportError d \<longrightarrow>
                fst (script_io f e w) = Exit 1
                \<and> error_logged ''Failed to update DDNS'' (snd (script_io f e w)))
          \<and> (\<forall>r. post_reply e = Response r \<longrightarrow>
                (if response_ok r \<and> success_body (resp_text r)
                    \<and> cache_write_fault f = WriteOk
                 then fst (script_io f e w) = Exit 0
                 else fst (script_io f e w) = Exit 1
                      \<and> error_logged ''Failed to update DDNS'' (snd (script_io f e w))))"
      by (auto simp: script_io_def mu ue ur lm el)
  qed
  have codes: "fst (script_io f e w) = Exit 0 \<or> fst (script_io f e w) = Exit 1
          \<or> fst (script_io f e w) = Exit 130"
  proof (cases "fst (get_public_ip_io f e w)")
    case (Inl x)
    then show ?thesis using interrupted by blast
  next
    case (Inr ip_opt)
    show ?thesis
    proof (cases ip_opt)
      case None
      then show ?thesis using Inr failed by blast
    next
      case (Some ip)
      show ?thesis
      proof (cases "ip_unchanged ip w")
        case True
        then show ?thesis using Inr Some same by blast
      next
        case False
        then show ?thesis
          using changed [of ip] Inr Some by (cases "post_reply e") (auto split: if_splits)
      qed
    qed
  qed
  show ?thesis
    using interrupted failed same changed codes by blast
qed

lemma env_ok_resolves:
  "get_reply e = (\<lambda>k. Response resp_ip) \<Longrightarrow>
   fst (get_public_ip e w) = Inr (Some ''198.51.100.9'')"
proof -
  assume g: "get_reply e = (\<lambda>k. Response resp_ip)"
  have s: "strip (resp_text resp_ip) = ''198.51.100.9''"
    by code_simp
  have v: "validate_ip ''198.51.100.9''"
    by code_simp
  have c: "status_code resp_ip = 200"
    by (simp add: resp_ip_def)
  show ?thesis
    by (simp add: get_public_ip_def range3 try_get_def g s v c Let_def)
qed

lemma faults_cache_readonly_ok: "log_and_reads_ok faults_cache_readonly"
  by (simp add: log_and_reads_ok_def faults_cache_readonly_def faults_none_def)

theorem script_io_outcomes_witness:
  "fst (script_io faults_none env_down w_fresh) = Exit 1
   \<and> error_logged ''Failed to get valid public IP after 3 attempts''
        (snd (script_io faults_none env_down w_fresh))
   \<and> fst (script_io faults_none env_interrupted w_fresh) = Exit 130
   \<and> error_logged ''Script interrupted'' (snd (script_io faults_none env_interrupted w_fresh))
   \<and> fst (script_io faults_none env_refused w_cached) = Exit 1
   \<and> error_logged ''Failed to update DDNS'' (snd (script_io faults_none env_refused w_cached))
   \<and> fst (script_io faults_cache_readonly env_ok w_cached) = Exit 1
   \<and> error_logged ''Failed to update DDNS''
        (snd (script_io faults_cache_readonly env_ok w_cached))
   \<and> fst (script_io faults_none env_ok w_cached) = Exit 0"
proof -
  have ok: "log_and_reads_ok faults_none"
    using no_faults_none by (simp add: no_faults_def)
  note io = get_public_ip_io_ok [OF ok]
  note io' = get_public_ip_io_ok [OF faults_cache_readonly_ok]
  have down: "fst (get_public_ip_io faults_none env_down w_fresh) = Inr None"
    by (simp add: io env_down_none)
  have intr: "fst (get_public_ip_io faults_none env_interrupted w_fresh) = Inl KeyboardInterrupt"
    by (simp add: io env_interrupted_raises)
  have r1: "fst (get_public_ip_io faults_none env_refused w_cached) = Inr (Some ''198.51.100.9'')"
    by (simp add: io env_ok_resolves env_refused_def env_ok_def)
  have r2: "fst (get_public_ip_io faults_cache_readonly env_ok w_cached) =
      Inr (Some ''198.51.100.9'')"
    by (simp add: io' env_ok_resolves env_ok_def)
  have r3: "fst (get_public_ip_io faults_none env_ok w_cached) = Inr (Some ''198.51.100.9'')"
    by (simp add: io env_ok_resolves env_ok_def)
  have ch: "\<not> ip_unchanged ''198.51.100.9'' w_cached"
    by code_simp
  have p1: "post_reply env_refused = TransportError ''Connection refused''"
    by (simp add: env_refused_def)
  have p2: "post_reply env_ok = Response resp_updated"
    by (simp add: env_ok_def)
  have acc: "response_ok resp_updated \<and> success_body (resp_text resp_updated)"
    by code_simp
  have wf: "cache_write_fault faults_cache_readonly \<noteq> WriteOk"
    "cache_write_fault faults_none = WriteOk"
    by (simp_all add: faults_cache_readonly_def faults_none_def)
  have a: "fst (script_io faults_none env_down w_fresh) = Exit 1
      \<and> error_logged ''Failed to get valid public IP after 3 attempts''
           (snd (script_io faults_none env_down w_fresh))"
    using script_io_outcomes [OF ok, of env_down w_fresh] down by blast
  have b: "fst (script_io faults_none env_interrupted w_fresh) = Exit 130
      \<and> error_logged ''Script interrupted''
           (snd (script_io faults_none env_interrupted w_fresh))"
    using script_io_outcomes [OF ok, of env_interrupted w_fresh] intr by blast
  have c: "fst (script_io faults_none env_refused w_cached) = Exit 1
      \<and> error_logged ''Failed to update DDNS'' (snd (script_io faults_none env_refused w_cached))"
    using script_io_outcomes [OF ok, of env_refused w_cached] r1 ch p1 by blast
  have d: "fst (script_io faults_cache_readonly env_ok w_cached) = Exit 1
      \<and> error_logged ''Failed to update DDNS''
           (snd (script_io faults_cache_readonly env_ok w_cached))"
    using script_io_outcomes [OF faults_cache_readonly_ok, of env_ok w_cached] r2 ch p2 acc wf(1)
    by (metis (full_types))
  have e: "fst (script_io faults_none env_ok w_cached) = Exit 0"
    using script_io_outcomes [OF ok, of env_ok w_cached] r3 ch p2 acc wf(2)
    by (metis (full_types))
  show ?thesis
    using a b c d e by blast
qed

text \<open>
  C6 as stated lets nothing leave the script. When the log file cannot be opened, the first
  \<open>log_message\<close> of \<open>main\<close>, which stands outside every \<open>try\<close>, raises an
  \<open>OSError\<close>; the \<open>__main__\<close> guard catches \<open>KeyboardInterrupt\<close> only, and the run
  ends in a traceback.
\<close>

theorem log_unwritable_counterexample:
  "fst (script_io faults_log_denied env_ok w_fresh) =
     Traceback (PyException ''[Errno 13] Permission denied'')"
  by (simp add: script_io_def main_io_def andthen_def log_message_io_def
      faults_log_denied_def faults_none_def)

end
